theory Spec2Isabelle
  imports Complex_Main
begin

section \<open>Python values used by the semantic weight engine\<close>

text \<open>
  The engine of \<^verbatim>\<open>semantic_analysis.py\<close> is embedded function by function.
  A Python \<^verbatim>\<open>str\<close> is a \<^typ>\<open>string\<close>: every character is a code point below 256,
  which covers the output grammar of the analyzers. An \<^verbatim>\<open>int\<close> is an \<^typ>\<open>int\<close>,
  a \<^verbatim>\<open>float\<close> is a \<^typ>\<open>real\<close> (sums and products are exact, rounding is not part
  of the model). Every exception the code can raise is a value of \<open>error\<close>, and a
  function that can raise returns \<open>error + 'a\<close>.
\<close>

datatype error =
    IndexError
  | ValueError
  | CalledProcessError int
  | UnicodeDecodeError
  | AssertionError
  | OSError
  | ModelParseError

text \<open>\<^verbatim>\<open>xs[i]\<close> for a non-negative constant index: out of range raises.\<close>

definition py_index :: "'a list \<Rightarrow> nat \<Rightarrow> error + 'a" where
  "py_index xs i = (if i < length xs then Inr (xs ! i) else Inl IndexError)"

text \<open>
  \<^verbatim>\<open>str.isspace\<close> on one character, for code points below 256: tab, line feed,
  vertical tab, form feed, carriage return, the four separators 0x1C to 0x1F, space,
  next line (0x85) and no-break space (0xA0).
\<close>

definition isspace :: "char \<Rightarrow> bool" where
  "isspace c = (c \<in> set [CHR 0x09, CHR 0x0A, CHR 0x0B, CHR 0x0C, CHR 0x0D,
     CHR 0x1C, CHR 0x1D, CHR 0x1E, CHR 0x1F, CHR 0x20, CHR 0x85, CHR 0xA0])"

text \<open>\<^verbatim>\<open>s.strip()\<close>: whitespace is removed at both ends.\<close>

definition strip :: "string \<Rightarrow> string" where
  "strip s = rev (dropWhile isspace (rev (dropWhile isspace s)))"

text \<open>\<^verbatim>\<open>s.replace(c, '')\<close> for a one-character \<open>c\<close>.\<close>

definition replace_with_empty :: "char \<Rightarrow> string \<Rightarrow> string" where
  "replace_with_empty c s = filter (\<lambda>x. x \<noteq> c) s"

text \<open>\<^verbatim>\<open>s.split(c)\<close> for a one-character separator: never the empty list.\<close>

fun split :: "char \<Rightarrow> string \<Rightarrow> string list" where
  "split c [] = [[]]"
| "split c (x # xs) =
     (if x = c then [] # split c xs
      else (case split c xs of [] \<Rightarrow> [[x]] | w # ws \<Rightarrow> (x # w) # ws))"

text \<open>\<^verbatim>\<open>s.split(c, maxsplit=1)\<close>: cut at the first separator, if there is one.\<close>

definition split_maxsplit1 :: "char \<Rightarrow> string \<Rightarrow> string list" where
  "split_maxsplit1 c s =
     (if c \<in> set s
      then [takeWhile (\<lambda>x. x \<noteq> c) s, tl (dropWhile (\<lambda>x. x \<noteq> c) s)]
      else [s])"

text \<open>
  \<^verbatim>\<open>int(s)\<close> on a string, base 10. Whitespace is skipped at both ends, where \<^verbatim>\<open>int\<close>
  takes as whitespace the characters of \<open>isspace\<close> but the four separators 0x1C to
  0x1F. What is left may carry one sign, and is a run of decimal digits in which single
  underscores may stand between two digits. Anything else raises \<^verbatim>\<open>ValueError\<close>. (The
  interpreter's limit on the number of digits of a literal is a runtime setting and is
  not modelled.)
\<close>

definition int_space :: "char \<Rightarrow> bool" where
  "int_space c = (c \<in> set [CHR 0x09, CHR 0x0A, CHR 0x0B, CHR 0x0C, CHR 0x0D,
     CHR 0x20, CHR 0x85, CHR 0xA0])"

definition isdigit :: "char \<Rightarrow> bool" where
  "isdigit c = (c \<in> set ''0123456789'')"

definition digit_value :: "char \<Rightarrow> int" where
  "digit_value c = int (of_char c) - 48"

fun digits_value :: "bool \<Rightarrow> int \<Rightarrow> string \<Rightarrow> int option" where
  "digits_value prev_digit acc [] = (if prev_digit then Some acc else None)"
| "digits_value prev_digit acc (c # cs) =
     (if isdigit c then digits_value True (10 * acc + digit_value c) cs
      else if c = CHR ''_'' \<and> prev_digit then digits_value False acc cs
      else None)"

definition py_int :: "string \<Rightarrow> error + int" where
  "py_int s =
     (let t = rev (dropWhile int_space (rev (dropWhile int_space s)));
          r = (case t of
                 [] \<Rightarrow> None
               | c # cs \<Rightarrow>
                   if c = CHR ''+'' then digits_value False 0 cs
                   else if c = CHR ''-'' then map_option uminus (digits_value False 0 cs)
                   else digits_value False 0 t)
      in case r of None \<Rightarrow> Inl ValueError | Some n \<Rightarrow> Inr n)"

section \<open>LangElement and the object store\<close>

text \<open>
  \<^verbatim>\<open>LangElement\<close> objects are mutable and shared: \<^verbatim>\<open>root\<close> and \<^verbatim>\<open>parent\<close> name the
  same object when \<^verbatim>\<open>_parse_structure\<close> starts, and \<^verbatim>\<open>children\<close> and \<^verbatim>\<open>parent\<close> hold
  references. The objects of one call therefore live in a store, a list indexed by
  address in order of creation; a reference is an address. The root is created first,
  so it is at address 0, and the value \<^verbatim>\<open>_parse_structure\<close> returns (the root, with all
  that is reachable from it) is the store.
\<close>

record LangElement =
  kind :: string
  parent :: "nat option"
  children :: "nat list"
  start :: int
  end' :: int

text \<open>\<^verbatim>\<open>LangElement(kind, parent, [])\<close>: the constructor sets both offsets to 0.\<close>

definition new_LangElement :: "string \<Rightarrow> nat option \<Rightarrow> LangElement" where
  "new_LangElement k p = \<lparr>kind = k, parent = p, children = [], start = 0, end' = 0\<rparr>"

definition in_range :: "LangElement \<Rightarrow> int \<Rightarrow> int \<Rightarrow> bool" where
  "in_range self s e = (start self \<le> s \<and> end' self \<ge> e)"

section \<open>The structure builder\<close>

text \<open>The statements of the loop body up to \<^verbatim>\<open>end = int(ranges[1])\<close>, in their order.\<close>

definition parse_line :: "string \<Rightarrow> error + (string \<times> int \<times> int)" where
  "parse_line line =
     (let split_v = split_maxsplit1 CHR ''-'' line;
          kind_v = strip (split_v ! 0)
      in case py_index split_v 1 of
           Inl e \<Rightarrow> Inl e
         | Inr s1 \<Rightarrow>
            (let ranges = split CHR ''-''
                   (replace_with_empty CHR '']'' (replace_with_empty CHR ''['' (strip s1)))
             in case py_index ranges 0 of
                  Inl e \<Rightarrow> Inl e
                | Inr r0 \<Rightarrow>
                   (case py_int r0 of
                      Inl e \<Rightarrow> Inl e
                    | Inr start_v \<Rightarrow>
                       (case py_index ranges 1 of
                          Inl e \<Rightarrow> Inl e
                        | Inr r1 \<Rightarrow>
                           (case py_int r1 of
                              Inl e \<Rightarrow> Inl e
                            | Inr end_v \<Rightarrow> Inr (kind_v, start_v, end_v))))))"

text \<open>
  The state of the loop: the store and the variable \<^verbatim>\<open>parent\<close> (the anchor), an
  address. The variable \<^verbatim>\<open>root\<close> is never reassigned: it is address 0.
\<close>

record loop_state =
  objs :: "LangElement list"
  anchor :: nat

text \<open>
  The rest of the loop body, for one parsed line: create \<^verbatim>\<open>elem\<close> with the anchor as
  its parent, raise \<^verbatim>\<open>root.end\<close>, then append \<^verbatim>\<open>elem\<close> to the children of the anchor
  or of the root.
\<close>

definition attach :: "loop_state \<Rightarrow> string \<Rightarrow> int \<Rightarrow> int \<Rightarrow> loop_state" where
  "attach st kind_v start_v end_v =
     (let h = objs st;
          p = anchor st;
          elem = length h;
          h1 = h @ [(new_LangElement kind_v (Some p))\<lparr>start := start_v, end' := end_v\<rparr>];
          h2 = (if end' (h1 ! 0) < end_v then h1[0 := (h1 ! 0)\<lparr>end' := end_v\<rparr>] else h1)
      in if in_range (h2 ! p) start_v end_v
         then \<lparr>objs = h2[p := (h2 ! p)\<lparr>children := children (h2 ! p) @ [elem]\<rparr>],
               anchor = p\<rparr>
         else \<lparr>objs = h2[0 := (h2 ! 0)\<lparr>children := children (h2 ! 0) @ [elem]\<rparr>],
               anchor = (if kind_v = ''class'' then elem else p)\<rparr>)"

definition loop_body :: "loop_state \<Rightarrow> string \<Rightarrow> error + loop_state" where
  "loop_body st line =
     (case parse_line line of
        Inl e \<Rightarrow> Inl e
      | Inr (kind_v, start_v, end_v) \<Rightarrow> Inr (attach st kind_v start_v end_v))"

text \<open>The \<^verbatim>\<open>for\<close> loop: an exception in one line ends the call.\<close>

fun parse_loop :: "loop_state \<Rightarrow> string list \<Rightarrow> error + loop_state" where
  "parse_loop st [] = Inr st"
| "parse_loop st (line # lines) =
     (case loop_body st line of
        Inl e \<Rightarrow> Inl e
      | Inr st' \<Rightarrow> parse_loop st' lines)"

definition initial_state :: loop_state where
  "initial_state = \<lparr>objs = [new_LangElement ''root'' None], anchor = 0\<rparr>"

text \<open>\<^verbatim>\<open>LangSemantics._parse_structure\<close>.\<close>

definition parse_structure :: "string list \<Rightarrow> error + LangElement list" where
  "parse_structure lines =
     (case parse_loop initial_state lines of
        Inl e \<Rightarrow> Inl e
      | Inr st \<Rightarrow> Inr (objs st))"

text \<open>
  The output grammar in the words of the spec, as a matcher: a kind that is an
  identifier, whitespace, \<^verbatim>\<open>-\<close>, whitespace, then \<^verbatim>\<open>[start-end]\<close> with two runs of
  decimal digits; whitespace around the line is ignored. It is used to name lines that
  violate the grammar, never by the builder.
\<close>

definition ident_char :: "char \<Rightarrow> bool" where
  "ident_char c =
     (c \<in> set ''abcdefghijklmnopqrstuvwxyzABCDEFGHIJKLMNOPQRSTUVWXYZ0123456789_'')"

definition eat :: "char \<Rightarrow> string \<Rightarrow> string option" where
  "eat c s = (case s of [] \<Rightarrow> None | x # r \<Rightarrow> if x = c then Some r else None)"

definition spec_grammar :: "string \<Rightarrow> bool" where
  "spec_grammar line =
     (let s0 = strip line;
          k = takeWhile ident_char s0
      in k \<noteq> [] \<and> \<not> isdigit (hd k) \<and>
         (case eat CHR ''-'' (dropWhile isspace (dropWhile ident_char s0)) of
            None \<Rightarrow> False
          | Some s1 \<Rightarrow>
             (case eat CHR ''['' (dropWhile isspace s1) of
                None \<Rightarrow> False
              | Some s2 \<Rightarrow>
                 takeWhile isdigit s2 \<noteq> [] \<and>
                 (case eat CHR ''-'' (dropWhile isdigit s2) of
                    None \<Rightarrow> False
                  | Some s3 \<Rightarrow>
                     takeWhile isdigit s3 \<noteq> [] \<and> dropWhile isdigit s3 = '']''))))"

section \<open>The weight scorer\<close>

text \<open>
  Modelled from the spec: the class \<^verbatim>\<open>SemanticWeightModel\<close> (module
  \<^verbatim>\<open>semantic_weight_model\<close>) is not among the sources. The spec calls it a bundle of
  numeric thresholds and multipliers; the fields are the ones \<^verbatim>\<open>compute_weight\<close> reads.
\<close>

record SemanticWeightModel =
  base_length_weight :: real
  base_class_weight :: real
  base_function_weight :: real
  base_property_or_field_weight :: real
  length_upper_limit :: real
  length_lower_limit :: real
  length_upper_limit_multiplier :: real
  length_lower_limit_multiplier :: real
  class_upper_limit :: real
  class_upper_limit_multiplier :: real
  function_upper_limit :: real
  function_lower_limit :: real
  function_upper_limit_multiplier :: real
  function_lower_limit_multiplier :: real
  property_field_upper_limit :: real
  property_field_lower_limit :: real
  property_field_upper_limit_multiplier :: real
  property_field_lower_limit_multiplier :: real

text \<open>
  Modelled from the spec: \<^verbatim>\<open>SemanticWeightModel()\<close>, the default-constructed model of
  the fallback pair, which the spec calls zero-valued.
\<close>

definition SemanticWeightModel_default :: SemanticWeightModel where
  "SemanticWeightModel_default =
     \<lparr>base_length_weight = 0, base_class_weight = 0, base_function_weight = 0,
      base_property_or_field_weight = 0, length_upper_limit = 0, length_lower_limit = 0,
      length_upper_limit_multiplier = 0, length_lower_limit_multiplier = 0,
      class_upper_limit = 0, class_upper_limit_multiplier = 0,
      function_upper_limit = 0, function_lower_limit = 0,
      function_upper_limit_multiplier = 0, function_lower_limit_multiplier = 0,
      property_field_upper_limit = 0, property_field_lower_limit = 0,
      property_field_upper_limit_multiplier = 0,
      property_field_lower_limit_multiplier = 0\<rparr>"

text \<open>
  The views of an element. \<open>h\<close> is the store and \<open>self\<close> an address in it; the
  children are dereferenced in the store.
\<close>

definition classes :: "LangElement list \<Rightarrow> nat \<Rightarrow> LangElement list" where
  "classes h self =
     filter (\<lambda>x. kind x = ''class'') (h ! self # map (nth h) (children (h ! self)))"

definition functions' :: "LangElement list \<Rightarrow> nat \<Rightarrow> LangElement list" where
  "functions' h self = filter (\<lambda>x. kind x = ''function'') (map (nth h) (children (h ! self)))"

definition fields' :: "LangElement list \<Rightarrow> nat \<Rightarrow> LangElement list" where
  "fields' h self = filter (\<lambda>x. kind x = ''field'') (map (nth h) (children (h ! self)))"

definition properties :: "LangElement list \<Rightarrow> nat \<Rightarrow> LangElement list" where
  "properties h self = filter (\<lambda>x. kind x = ''property'') (map (nth h) (children (h ! self)))"

definition comments :: "LangElement list \<Rightarrow> nat \<Rightarrow> LangElement list" where
  "comments h self = filter (\<lambda>x. kind x = ''comment'') (map (nth h) (children (h ! self)))"

text \<open>
  \<^verbatim>\<open>LangElement.compute_weight\<close>, statement by statement: each multiplier starts at
  1.0 and is overwritten by at most one branch, and \<open>weight\<close> is increased four times.
\<close>

definition compute_weight :: "LangElement list \<Rightarrow> nat \<Rightarrow> SemanticWeightModel \<Rightarrow> real" where
  "compute_weight h self weight_model =
     (let weight = 0;
          total_length_multiplier =
            (if real_of_int (end' (h ! self)) > length_upper_limit weight_model
             then length_upper_limit_multiplier weight_model
             else if real_of_int (end' (h ! self)) < length_lower_limit weight_model
             then length_lower_limit_multiplier weight_model
             else 1);
          weight = weight + base_length_weight weight_model * total_length_multiplier;
          class_count = int (length (classes h self));
          class_count_multiplier =
            (if real_of_int class_count > class_upper_limit weight_model
             then class_upper_limit_multiplier weight_model
                    - 0.2 * real_of_int (class_count - 1)
             else 1);
          weight = weight + base_class_weight weight_model * class_count_multiplier;
          function_count = int (length (functions' h self));
          function_count_multiplier =
            (if real_of_int function_count > function_upper_limit weight_model
             then function_upper_limit_multiplier weight_model
                    - 0.05 * real_of_int (function_count - 20)
             else if real_of_int function_count < function_lower_limit weight_model
             then function_lower_limit_multiplier weight_model
                    - 0.1 * real_of_int (4 - function_count)
             else 1);
          weight = weight + base_function_weight weight_model * function_count_multiplier;
          property_or_field_count = int (length (fields' h self @ properties h self));
          property_or_field_count_multiplier =
            (if real_of_int property_or_field_count > property_field_upper_limit weight_model
             then property_field_upper_limit_multiplier weight_model
                    - 0.05 * real_of_int (property_or_field_count - 20)
             else if real_of_int property_or_field_count
                       < property_field_lower_limit weight_model
             then property_field_lower_limit_multiplier weight_model
                    - 0.05 * real_of_int (4 - property_or_field_count)
             else 1);
          weight = weight
                     + base_property_or_field_weight weight_model
                         * property_or_field_count_multiplier
      in weight)"

section \<open>Paths, the file system and the analyzer processes\<close>

text \<open>
  A \<^verbatim>\<open>pathlib.Path\<close> is the string of the path, with \<^verbatim>\<open>/\<close> between its parts.
  \<open>path_name\<close> and \<open>path_suffix\<close> are \<^verbatim>\<open>Path.name\<close> and \<^verbatim>\<open>Path.suffix\<close>: the suffix
  starts at the last dot of the name, unless that dot is the first or the last
  character of the name.
\<close>

type_synonym Path = string

definition path_name :: "Path \<Rightarrow> string" where
  "path_name p = rev (takeWhile (\<lambda>c. c \<noteq> CHR ''/'') (rev p))"

definition path_suffix :: "Path \<Rightarrow> string" where
  "path_suffix p =
     (let n = path_name p;
          after_dot = rev (takeWhile (\<lambda>c. c \<noteq> CHR ''.'') (rev n));
          upto_dot = dropWhile (\<lambda>c. c \<noteq> CHR ''.'') (rev n)
      in if 2 \<le> length upto_dot \<and> after_dot \<noteq> [] then CHR ''.'' # after_dot else [])"

definition path_parent :: "Path \<Rightarrow> Path" where
  "path_parent p = rev (tl (dropWhile (\<lambda>c. c \<noteq> CHR ''/'') (rev p)))"

definition path_join :: "Path \<Rightarrow> string \<Rightarrow> Path" where
  "path_join p q = p @ ''/'' @ q"

text \<open>\<^verbatim>\<open>s.split()\<close>: the maximal runs of characters that are not whitespace.\<close>

fun split_whitespace_acc :: "string \<Rightarrow> string \<Rightarrow> string list" where
  "split_whitespace_acc cur [] = (if cur = [] then [] else [cur])"
| "split_whitespace_acc cur (c # cs) =
     (if isspace c
      then (if cur = [] then split_whitespace_acc [] cs
            else cur # split_whitespace_acc [] cs)
      else split_whitespace_acc (cur @ [c]) cs)"

definition split_whitespace :: "string \<Rightarrow> string list" where
  "split_whitespace s = split_whitespace_acc [] s"

text \<open>
  \<^verbatim>\<open>s.splitlines(keepends=True)\<close>, for code points below 256: a line ends after a
  line feed, a carriage return (with the line feed that follows it, if any), a
  vertical tab, a form feed, one of the separators 0x1C to 0x1E, or a next line.
\<close>

definition is_linebreak :: "char \<Rightarrow> bool" where
  "is_linebreak c = (c \<in> set [CHR 0x0A, CHR 0x0B, CHR 0x0C, CHR 0x0D,
     CHR 0x1C, CHR 0x1D, CHR 0x1E, CHR 0x85])"

fun splitlines_acc :: "string \<Rightarrow> string \<Rightarrow> string list" where
  "splitlines_acc cur [] = (if cur = [] then [] else [cur])"
| "splitlines_acc cur [c] = [cur @ [c]]"
| "splitlines_acc cur (c # d # cs) =
     (if c = CHR 0x0D \<and> d = CHR 0x0A then (cur @ [c, d]) # splitlines_acc [] cs
      else if is_linebreak c then (cur @ [c]) # splitlines_acc [] (d # cs)
      else splitlines_acc (cur @ [c]) (d # cs))"

definition splitlines :: "string \<Rightarrow> string list" where
  "splitlines s = splitlines_acc [] s"

text \<open>
  What \<^verbatim>\<open>subprocess.run\<close> returns: the exit status and the captured standard
  output, decoded (\<open>None\<close> when the bytes are not valid UTF-8).
\<close>

record CompletedProcess =
  returncode :: int
  stdout :: "string option"

record LangSemantics =
  lang_dir :: Path
  tool :: string

text \<open>
  The collaborators of the engine, fixed during a run: the directory of the analyzers
  (\<^verbatim>\<open>LANG_SEMANTICS_PATH\<close>), the working directory, the file system (which paths exist,
  what \<^verbatim>\<open>read_text\<close> returns, \<open>None\<close> when it raises), and the analyzer processes
  (from the argument list and the working directory to the completed process).

  Modelled from the spec: \<^verbatim>\<open>SemanticWeightModel.parse\<close>, the model-loading
  collaborator, whose module is not among the sources, is the field \<open>model_parse\<close>
  (\<open>None\<close> when it raises).
\<close>

record environment =
  LANG_SEMANTICS_PATH :: Path
  cwd :: Path
  path_exists :: "Path \<Rightarrow> bool"
  read_text :: "Path \<Rightarrow> string option"
  run_process :: "string list \<Rightarrow> Path \<Rightarrow> CompletedProcess"
  model_parse :: "Path \<Rightarrow> SemanticWeightModel option"

text \<open>
  What a run changes: the global dictionary \<^verbatim>\<open>SEMANTIC_ANALYZERS\<close>, and the log of
  the processes started so far (argument list and working directory of each).
\<close>

record world =
  SEMANTIC_ANALYZERS :: "string \<rightharpoonup> LangSemantics"
  started :: "(string list \<times> Path) list"

text \<open>\<^verbatim>\<open>file.absolute()\<close>.\<close>

definition absolute :: "environment \<Rightarrow> Path \<Rightarrow> Path" where
  "absolute env p = (if p \<noteq> [] \<and> hd p = CHR ''/'' then p else path_join (cwd env) p)"

section \<open>The analyzer registry\<close>

text \<open>
  The first statements of \<^verbatim>\<open>load_semantic_parser\<close>, which derive the extension from
  the file: the suffix without its leading dots, or the whole name of a dotfile.
\<close>

definition file_extension :: "Path \<Rightarrow> string" where
  "file_extension file =
     (let extension = dropWhile (\<lambda>c. c = CHR ''.'') (path_suffix file)
      in if extension = [] \<and> path_name file \<noteq> [] \<and> hd (path_name file) = CHR ''.''
         then path_name file else extension)"

text \<open>
  The rest of \<^verbatim>\<open>load_semantic_parser\<close>: the dictionary first, then the file system.
  \<^verbatim>\<open>LANG_SEMANTICS_PATH\<close> is an absolute path, so \<^verbatim>\<open>lang_folder.absolute()\<close> is
  \<^verbatim>\<open>lang_folder\<close>.
\<close>

definition load_semantic_parser ::
  "environment \<Rightarrow> Path \<Rightarrow> world \<Rightarrow> (error + LangSemantics option) \<times> world" where
  "load_semantic_parser env file w =
     (let extension = file_extension file
      in if extension = [] then (Inr None, w)
         else
           (case SEMANTIC_ANALYZERS w extension of
              Some semantics \<Rightarrow> (Inr (Some semantics), w)
            | None \<Rightarrow>
               (let lang_folder = path_join (LANG_SEMANTICS_PATH env) extension
                in if \<not> path_exists env lang_folder then (Inr None, w)
                   else
                     (case read_text env (path_join lang_folder ''target'') of
                        None \<Rightarrow> (Inl OSError, w)
                      | Some executable \<Rightarrow>
                         (let semantics = \<lparr>lang_dir = lang_folder, tool = executable\<rparr>
                          in (Inr (Some semantics),
                              w\<lparr>SEMANTIC_ANALYZERS :=
                                   (SEMANTIC_ANALYZERS w)(extension \<mapsto> semantics)\<rparr>))))))"

definition has_semantic_parser ::
  "environment \<Rightarrow> Path \<Rightarrow> world \<Rightarrow> (error + bool) \<times> world" where
  "has_semantic_parser env file w =
     (case load_semantic_parser env file w of
        (Inl e, w') \<Rightarrow> (Inl e, w')
      | (Inr r, w') \<Rightarrow> (Inr (r \<noteq> None), w'))"

section \<open>The analyzer invoker\<close>

text \<open>
  \<^verbatim>\<open>LangSemantics.analyze\<close>. \<^verbatim>\<open>check=True\<close> makes \<^verbatim>\<open>subprocess.run\<close> raise
  \<^verbatim>\<open>CalledProcessError\<close> on a non-zero exit status, before the output is read.
\<close>

definition analyze ::
  "environment \<Rightarrow> LangSemantics \<Rightarrow> Path \<Rightarrow> world
     \<Rightarrow> (error + SemanticWeightModel \<times> LangElement list) \<times> world" where
  "analyze env self file w =
     (let args = split_whitespace (tool self)
                   @ [path_join (path_parent (lang_dir self)) ''declarations.json'', file];
          process = run_process env args (lang_dir self);
          w1 = w\<lparr>started := started w @ [(args, lang_dir self)]\<rparr>
      in if returncode process \<noteq> 0
         then (Inl (CalledProcessError (returncode process)), w1)
         else
           (case stdout process of
              None \<Rightarrow> (Inl UnicodeDecodeError, w1)
            | Some output \<Rightarrow>
               (case parse_structure (splitlines output) of
                  Inl e \<Rightarrow> (Inl e, w1)
                | Inr structure \<Rightarrow>
                   (case model_parse env file of
                      None \<Rightarrow> (Inl ModelParseError, w1)
                    | Some model \<Rightarrow> (Inr (model, structure), w1)))))"

section \<open>The batch orchestrator\<close>

definition compute_semantic_weight ::
  "environment \<Rightarrow> Path \<Rightarrow> world
     \<Rightarrow> (error + SemanticWeightModel \<times> LangElement list) \<times> world" where
  "compute_semantic_weight env file w =
     (case load_semantic_parser env file w of
        (Inl e, w') \<Rightarrow> (Inl e, w')
      | (Inr None, w') \<Rightarrow> (Inl AssertionError, w')
      | (Inr (Some semantics), w') \<Rightarrow> analyze env semantics file w')"

text \<open>
  Modelled from the spec: \<^verbatim>\<open>FileGroup\<close> (module \<^verbatim>\<open>lib\<close>) is not among the sources;
  the spec calls a file group a list of file paths, and the code reads its \<^verbatim>\<open>files\<close>.
\<close>

record FileGroup =
  files :: "Path list"

text \<open>The loop of \<^verbatim>\<open>compute_semantic_weight_grouped\<close>, with the list \<^verbatim>\<open>ret\<close>.\<close>

fun grouped_loop ::
  "environment \<Rightarrow> Path list \<Rightarrow> (SemanticWeightModel \<times> LangElement list) list \<Rightarrow> world
     \<Rightarrow> (error + (SemanticWeightModel \<times> LangElement list) list) \<times> world" where
  "grouped_loop env [] ret w = (Inr ret, w)"
| "grouped_loop env (file # rest) ret w =
     (let abs_file = absolute env file
      in case has_semantic_parser env abs_file w of
           (Inl e, w1) \<Rightarrow> (Inl e, w1)
         | (Inr b, w1) \<Rightarrow>
             if b
             then (case compute_semantic_weight env abs_file w1 of
                     (Inl e, w2) \<Rightarrow> (Inl e, w2)
                   | (Inr sem_w, w2) \<Rightarrow> grouped_loop env rest (ret @ [sem_w]) w2)
             else grouped_loop env rest
                    (ret @ [(SemanticWeightModel_default, [new_LangElement ''root'' None])]) w1)"

definition compute_semantic_weight_grouped ::
  "environment \<Rightarrow> FileGroup \<Rightarrow> world
     \<Rightarrow> (error + (SemanticWeightModel \<times> LangElement list) list) \<times> world" where
  "compute_semantic_weight_grouped env file_group w = grouped_loop env (files file_group) [] w"

text \<open>
  The loop of \<^verbatim>\<open>compute_semantic_weight_result\<close>. The progress lines printed when
  \<^verbatim>\<open>verbose\<close> is set, and the clock they read, change neither \<^verbatim>\<open>ret\<close> nor the
  dictionary of analyzers, and are left out.
\<close>

fun result_loop ::
  "environment \<Rightarrow> FileGroup list \<Rightarrow> (SemanticWeightModel \<times> LangElement list) list list
     \<Rightarrow> world \<Rightarrow> (error + (SemanticWeightModel \<times> LangElement list) list list) \<times> world" where
  "result_loop env [] ret w = (Inr ret, w)"
| "result_loop env (group_v # rest) ret w =
     (case compute_semantic_weight_grouped env group_v w of
        (Inl e, w1) \<Rightarrow> (Inl e, w1)
      | (Inr grouped_semantic_weight, w1) \<Rightarrow>
          result_loop env rest (ret @ [grouped_semantic_weight]) w1)"

definition compute_semantic_weight_result ::
  "environment \<Rightarrow> FileGroup list \<Rightarrow> world
     \<Rightarrow> (error + (SemanticWeightModel \<times> LangElement list) list list) \<times> world" where
  "compute_semantic_weight_result env file_group w = result_loop env file_group [] w"

section \<open>Notions used to state and prove the claims about the batch\<close>

text \<open>
  The dictionary of analyzers only grows during a run, and an entry that is added is
  the one the file system gives for its extension: \<open>cache_grows env c c'\<close> says that
  \<open>c'\<close> comes from \<open>c\<close> by such additions.
\<close>

definition cache_grows ::
  "environment \<Rightarrow> (string \<rightharpoonup> LangSemantics) \<Rightarrow> (string \<rightharpoonup> LangSemantics) \<Rightarrow> bool" where
  "cache_grows env c c' =
     (\<forall>ext. c' ext = c ext \<or>
        (c ext = None \<and> path_exists env (path_join (LANG_SEMANTICS_PATH env) ext) \<and>
         (\<exists>exe. read_text env (path_join (path_join (LANG_SEMANTICS_PATH env) ext) ''target'')
                  = Some exe \<and>
                c' ext = Some \<lparr>lang_dir = path_join (LANG_SEMANTICS_PATH env) ext, tool = exe\<rparr>)))"

text \<open>
  What one file yields on its own in the world \<open>w\<close>: the error of the registry, the
  fallback pair when no analyzer resolves, and otherwise what \<^verbatim>\<open>analyze\<close> returns (its
  pair or its error).
\<close>

definition file_outcome ::
  "environment \<Rightarrow> world \<Rightarrow> Path \<Rightarrow> error + SemanticWeightModel \<times> LangElement list" where
  "file_outcome env w f =
     (case fst (load_semantic_parser env f w) of
        Inl e \<Rightarrow> Inl e
      | Inr None \<Rightarrow> Inr (SemanticWeightModel_default, [new_LangElement ''root'' None])
      | Inr (Some sem) \<Rightarrow> fst (analyze env sem f w))"

section \<open>An example environment\<close>

text \<open>
  One analyzer, for the extension \<^verbatim>\<open>cs\<close>. Its process fails on \<^verbatim>\<open>/repo/Broken.cs\<close> and
  prints a class and a function for every other file. The dictionary starts empty.
\<close>

definition example_environment :: environment where
  "example_environment =
     \<lparr>LANG_SEMANTICS_PATH = ''/app/lang-semantics'',
      cwd = ''/repo'',
      path_exists = (\<lambda>p. p = ''/app/lang-semantics/cs''),
      read_text = (\<lambda>p. if p = ''/app/lang-semantics/cs/target''
                          then Some ''dotnet Analyzer.dll'' else None),
      run_process = (\<lambda>args d.
         if last args = ''/repo/Broken.cs''
         then \<lparr>returncode = 1, stdout = Some ''class - [0-''\<rparr>
         else \<lparr>returncode = 0, stdout = Some ''class - [0-100]\<newline>function - [10-20]\<newline>''\<rparr>),
      model_parse = (\<lambda>p. Some SemanticWeightModel_default)\<rparr>"

definition example_world :: world where
  "example_world = \<lparr>SEMANTIC_ANALYZERS = Map.empty, started = []\<rparr>"

section \<open>What one line parses to\<close>

text \<open>
  The pieces of \<^verbatim>\<open>split('-')\<close> hold no \<^verbatim>\<open>-\<close>, so \<^verbatim>\<open>int\<close> never reads a minus sign
  from them: both offsets of a parsed line are non-negative.
\<close>

lemma split_nonempty: "split c s \<noteq> []"
  by (cases s) (auto split: list.splits)

lemma split_no_sep: "x \<in> set (split c s) \<Longrightarrow> c \<notin> set x"
proof (induction s arbitrary: x)
  case Nil
  then show ?case by simp
next
  case (Cons a s)
  then show ?case
    by (cases "split c s") (auto split: if_splits)
qed

lemma digit_value_nonneg: "isdigit c \<Longrightarrow> 0 \<le> digit_value c"
  by (auto simp: isdigit_def digit_value_def)

lemma digits_value_nonneg: "digits_value p acc s = Some n \<Longrightarrow> 0 \<le> acc \<Longrightarrow> 0 \<le> n"
proof (induction s arbitrary: p acc)
  case Nil
  then show ?case by (simp split: if_splits)
next
  case (Cons c s)
  show ?case
  proof (cases "isdigit c")
    case True
    with Cons.prems have "digits_value True (10 * acc + digit_value c) s = Some n" by simp
    moreover have "0 \<le> 10 * acc + digit_value c"
      using Cons.prems(2) digit_value_nonneg [OF True] by simp
    ultimately show ?thesis by (rule Cons.IH)
  next
    case False
    with Cons.prems have "digits_value False acc s = Some n"
      by (simp split: if_splits)
    then show ?thesis using Cons.prems(2) by (rule Cons.IH)
  qed
qed

lemma set_dropWhile_both_ends: "set (rev (dropWhile P (rev (dropWhile P s)))) \<subseteq> set s"
proof -
  have "set (rev (dropWhile P (rev (dropWhile P s)))) \<subseteq> set (dropWhile P s)"
    using set_dropWhileD by fastforce
  also have "\<dots> \<subseteq> set s" using set_dropWhileD by fastforce
  finally show ?thesis .
qed

lemma set_strip: "set (strip s) \<subseteq> set s"
  unfolding strip_def by (rule set_dropWhile_both_ends)

lemma py_int_nonneg:
  assumes "py_int s = Inr n" and "CHR ''-'' \<notin> set s"
  shows "0 \<le> n"
proof -
  define t where "t = rev (dropWhile int_space (rev (dropWhile int_space s)))"
  have nm: "CHR ''-'' \<notin> set t"
    using assms(2) set_dropWhile_both_ends [of int_space s] unfolding t_def by blast
  show ?thesis
  proof (cases t)
    case Nil
    with assms(1) show ?thesis by (simp add: py_int_def t_def [symmetric])
  next
    case (Cons c cs)
    with nm have "c \<noteq> CHR ''-''" by auto
    with assms(1) Cons have "digits_value False 0 cs = Some n \<or> digits_value False 0 (c # cs) = Some n"
      by (auto simp: py_int_def t_def [symmetric] Let_def split: if_splits option.splits)
    then show ?thesis using digits_value_nonneg by fastforce
  qed
qed

lemma parse_line_InrD:
  assumes "parse_line l = Inr (k, s, e)"
  shows "\<exists>t. 1 < length (split CHR ''-'' t) \<and> py_int (split CHR ''-'' t ! 0) = Inr s
    \<and> py_int (split CHR ''-'' t ! 1) = Inr e"
proof -
  define t where "t = replace_with_empty CHR '']'' (replace_with_empty CHR ''[''
    (strip (split_maxsplit1 CHR ''-'' l ! 1)))"
  from assms have "1 < length (split CHR ''-'' t) \<and> py_int (split CHR ''-'' t ! 0) = Inr s
    \<and> py_int (split CHR ''-'' t ! 1) = Inr e"
    by (simp add: parse_line_def Let_def py_index_def t_def split: if_splits sum.splits)
  then show ?thesis ..
qed

lemma parse_line_nonneg:
  assumes "parse_line l = Inr (k, s, e)"
  shows "0 \<le> s \<and> 0 \<le> e"
proof -
  from parse_line_InrD [OF assms] obtain t where
    len: "1 < length (split CHR ''-'' t)" and
    i0: "py_int (split CHR ''-'' t ! 0) = Inr s" and
    i1: "py_int (split CHR ''-'' t ! 1) = Inr e"
    by blast
  from len have "split CHR ''-'' t ! 0 \<in> set (split CHR ''-'' t)"
    and "split CHR ''-'' t ! 1 \<in> set (split CHR ''-'' t)"
    by (auto intro!: nth_mem)
  then have "CHR ''-'' \<notin> set (split CHR ''-'' t ! 0)" "CHR ''-'' \<notin> set (split CHR ''-'' t ! 1)"
    by (simp_all add: split_no_sep)
  with i0 i1 show ?thesis using py_int_nonneg by blast
qed

section \<open>The store built by the loop\<close>

text \<open>
  While the anchor is the root, whose \<open>start\<close> is 0 and whose \<open>end\<close> has just been
  raised to at least the new \<open>end\<close>, the containment check succeeds. So one step of the
  loop appends the new element to the store and its address to the children of the
  root, and leaves the anchor where it is. By induction the store after the loop is
  the root followed by the parsed elements, in order.
\<close>

lemma attach_at_root:
  assumes "anchor st = 0" and "objs st = r # es" and "start r = 0" and "0 \<le> s"
  shows "attach st k s e =
    \<lparr>objs = r\<lparr>children := children r @ [Suc (length es)], end' := max (end' r) e\<rparr>
              # es @ [\<lparr>kind = k, parent = Some 0, children = [], start = s, end' = e\<rparr>],
     anchor = 0\<rparr>"
  using assms
  by (simp add: attach_def Let_def in_range_def new_LangElement_def max_def)

lemma parse_loop_at_root:
  assumes "parse_loop st ls = Inr st'" and "anchor st = 0" and "objs st = r # es"
    and "start r = 0"
  shows "\<exists>ts. map parse_line ls = map Inr ts \<and> anchor st' = 0 \<and>
    objs st' = r\<lparr>children := children r @ [Suc (length es) ..< Suc (length es) + length ts],
                   end' := fold (\<lambda>t m. max m (snd (snd t))) ts (end' r)\<rparr>
               # es @ map (\<lambda>t. \<lparr>kind = fst t, parent = Some 0, children = [],
                                   start = fst (snd t), end' = snd (snd t)\<rparr>) ts"
  using assms
proof (induction ls arbitrary: st r es)
  case Nil
  then show ?case by simp
next
  case (Cons l ls)
  from Cons.prems(1) obtain k s e where pl: "parse_line l = Inr (k, s, e)"
    and rest: "parse_loop (attach st k s e) ls = Inr st'"
    by (auto simp: loop_body_def split: sum.splits)
  from parse_line_nonneg [OF pl] have s0: "0 \<le> s" by simp
  let ?r = "r\<lparr>children := children r @ [Suc (length es)], end' := max (end' r) e\<rparr>"
  let ?es = "es @ [\<lparr>kind = k, parent = Some 0, children = [], start = s, end' = e\<rparr>]"
  have at: "attach st k s e = \<lparr>objs = ?r # ?es, anchor = 0\<rparr>"
    using attach_at_root [OF Cons.prems(2,3,4) s0] .
  from Cons.IH [OF rest, of ?r ?es] at Cons.prems(4)
  obtain ts where ts: "map parse_line ls = map Inr ts" "anchor st' = 0"
    "objs st' = ?r\<lparr>children := children ?r @ [Suc (length ?es) ..< Suc (length ?es) + length ts],
                   end' := fold (\<lambda>t m. max m (snd (snd t))) ts (end' ?r)\<rparr>
               # ?es @ map (\<lambda>t. \<lparr>kind = fst t, parent = Some 0, children = [],
                                   start = fst (snd t), end' = snd (snd t)\<rparr>) ts"
    by auto
  have up: "Suc (length es) # [Suc (Suc (length es)) ..< Suc (Suc (length es)) + length ts]
    = [Suc (length es) ..< Suc (length es) + Suc (length ts)]"
    by (simp add: upt_rec)
  show ?case
    apply (rule exI [of _ "(k, s, e) # ts"])
    using ts pl up by simp
qed

lemma parse_loop_append:
  "parse_loop st (xs @ ys) =
     (case parse_loop st xs of Inl e \<Rightarrow> Inl e | Inr m \<Rightarrow> parse_loop m ys)"
  by (induction xs arbitrary: st) (auto split: sum.splits)

lemma parse_loop_initial:
  assumes "parse_loop initial_state ls = Inr st"
  shows "\<exists>ts. map parse_line ls = map Inr ts \<and> anchor st = 0 \<and>
    objs st = \<lparr>kind = ''root'', parent = None, children = [1 ..< Suc (length ts)], start = 0,
                end' = fold (\<lambda>t m. max m (snd (snd t))) ts 0\<rparr>
               # map (\<lambda>t. \<lparr>kind = fst t, parent = Some 0, children = [],
                                   start = fst (snd t), end' = snd (snd t)\<rparr>) ts"
  using parse_loop_at_root [OF assms, of "new_LangElement ''root'' None" "[]"]
  by (simp add: initial_state_def new_LangElement_def)

lemma fold_max_Max:
  "fold (\<lambda>t m. max m (f t)) ts (a::int) = Max (insert a (f ` set ts))"
proof (induction ts arbitrary: a)
  case Nil
  then show ?case by simp
next
  case (Cons t ts)
  have "Max (insert (max a (f t)) (f ` set ts)) = Max (insert a (insert (f t) (f ` set ts)))"
    by (cases "ts = []") (simp_all add: max.assoc)
  with Cons show ?case by simp
qed

lemma parse_structure_store:
  assumes "parse_structure ls = Inr h"
  shows "\<exists>ts. map parse_line ls = map Inr ts \<and>
    h = \<lparr>kind = ''root'', parent = None, children = [1 ..< Suc (length ts)], start = 0,
                end' = fold (\<lambda>t m. max m (snd (snd t))) ts 0\<rparr>
               # map (\<lambda>t. \<lparr>kind = fst t, parent = Some 0, children = [],
                                   start = fst (snd t), end' = snd (snd t)\<rparr>) ts"
proof -
  from assms obtain st where "parse_loop initial_state ls = Inr st" "h = objs st"
    by (auto simp: parse_structure_def split: sum.splits)
  with parse_loop_initial [of ls st] show ?thesis by auto
qed

lemma parsed_nonneg:
  assumes "map parse_line ls = map Inr ts" and "t \<in> set ts"
  shows "0 \<le> fst (snd t) \<and> 0 \<le> snd (snd t)"
proof -
  from assms(2) obtain j where j: "j < length ts" "ts ! j = t"
    by (auto simp: in_set_conv_nth)
  from assms(1) have "length ls = length ts" by (metis length_map)
  with assms(1) j have "parse_line (ls ! j) = Inr t" by (metis nth_map)
  then have "parse_line (ls ! j) = Inr (fst t, fst (snd t), snd (snd t))" by simp
  from parse_line_nonneg [OF this] show ?thesis .
qed

text \<open>
  A line with fewer than two \<^verbatim>\<open>-\<close> cannot be parsed: with none, \<^verbatim>\<open>split[1]\<close> is out
  of range; with one, the text after it is a single piece, so \<^verbatim>\<open>int(ranges[0])\<close>
  raises or \<^verbatim>\<open>ranges[1]\<close> is out of range. An exception in any line ends the loop.
\<close>

lemma split_without_separator: "c \<notin> set s \<Longrightarrow> split c s = [s]"
  by (induction s) auto

lemma one_separator_tail:
  "length (filter (\<lambda>x. x = c) l) < 2 \<Longrightarrow> c \<notin> set (tl (dropWhile (\<lambda>x. x \<noteq> c) l))"
proof (induction l)
  case Nil
  then show ?case by simp
next
  case (Cons a l)
  show ?case
  proof (cases "a = c")
    case True
    with Cons.prems have "filter (\<lambda>x. x = c) l = []" by simp
    then have "c \<notin> set l" by (auto simp: filter_empty_conv)
    with True show ?thesis by simp
  next
    case False
    with Cons show ?thesis by simp
  qed
qed

lemma parse_line_few_separators:
  assumes "length (filter (\<lambda>x. x = CHR ''-'') l) < 2"
  shows "parse_line l = Inl IndexError \<or> parse_line l = Inl ValueError"
proof (cases "CHR ''-'' \<in> set l")
  case False
  then show ?thesis by (simp add: parse_line_def split_maxsplit1_def py_index_def)
next
  case True
  define t where "t = replace_with_empty CHR '']'' (replace_with_empty CHR ''[''
    (strip (tl (dropWhile (\<lambda>x. x \<noteq> CHR ''-'') l))))"
  have "CHR ''-'' \<notin> set (tl (dropWhile (\<lambda>x. x \<noteq> CHR ''-'') l))"
    using one_separator_tail [OF assms] .
  then have "CHR ''-'' \<notin> set t"
    using set_strip unfolding t_def replace_with_empty_def by fastforce
  then have "split CHR ''-'' t = [t]" by (rule split_without_separator)
  with True show ?thesis
    by (simp add: parse_line_def split_maxsplit1_def py_index_def t_def py_int_def Let_def
        split: sum.splits option.splits)
qed

lemma parse_line_errors:
  "parse_line l = Inl e \<Longrightarrow> e = IndexError \<or> e = ValueError"
  by (auto simp: parse_line_def py_index_def py_int_def Let_def
      split: sum.splits option.splits if_splits)

lemma parse_loop_error:
  "l \<in> set ls \<Longrightarrow> parse_line l = Inl e \<Longrightarrow>
     parse_loop st ls = Inl IndexError \<or> parse_loop st ls = Inl ValueError"
proof (induction ls arbitrary: st)
  case Nil
  then show ?case by simp
next
  case (Cons a ls)
  show ?case
  proof (cases "parse_line a")
    case (Inl e')
    with parse_line_errors [OF Inl] show ?thesis by (auto simp: loop_body_def)
  next
    case (Inr t)
    with Cons.prems have "l \<in> set ls" by auto
    from Cons.IH [OF this Cons.prems(2)] Inr show ?thesis
      by (auto simp: loop_body_def split: prod.splits)
  qed
qed

lemmas parse_eval = parse_structure_def initial_state_def loop_body_def parse_line_def
  split_maxsplit1_def strip_def isspace_def py_index_def replace_with_empty_def py_int_def
  int_space_def isdigit_def digit_value_def attach_def Let_def new_LangElement_def in_range_def

section \<open>Claims about the structure builder\<close>

text \<open>
  C1. The four lines \<^verbatim>\<open>class - [0-100]\<close>, \<^verbatim>\<open>function - [10-20]\<close>,
  \<^verbatim>\<open>function - [30-40]\<close>, \<^verbatim>\<open>class - [110-120]\<close> are said to give a root with end 120,
  the first class with the two functions as its children, and the second class as a
  child of the root without children. The code gives the store below: the end of the
  root is 120 and the second class is a childless child of the root, but the two
  functions are children of the root as well, and the first class has no children.
\<close>

theorem four_lines_store:
  "parse_structure [''class - [0-100]'', ''function - [10-20]'', ''function - [30-40]'',
      ''class - [110-120]''] =
   Inr [\<lparr>kind = ''root'', parent = None, children = [1, 2, 3, 4], start = 0, end' = 120\<rparr>,
        \<lparr>kind = ''class'', parent = Some 0, children = [], start = 0, end' = 100\<rparr>,
        \<lparr>kind = ''function'', parent = Some 0, children = [], start = 10, end' = 20\<rparr>,
        \<lparr>kind = ''function'', parent = Some 0, children = [], start = 30, end' = 40\<rparr>,
        \<lparr>kind = ''class'', parent = Some 0, children = [], start = 110, end' = 120\<rparr>]"
  by (simp add: parse_eval)

text \<open>
  C2. For every accepted list of lines, every element is attached as a direct child of
  the root and the anchor never leaves the root: the anchor is the root after the loop
  and after every prefix of the lines, the children of the root are all the other
  addresses in order, and every other element has the root as its parent, no children
  and a start that is at least 0. The claim restricts the lines to those whose
  elements start at 0 or later; every accepted line does (\<open>parse_line_nonneg\<close>), so
  the restriction is part of the conclusion here.
\<close>

theorem parse_attaches_everything_to_root:
  assumes "parse_loop initial_state lines = Inr st"
  shows "anchor st = 0
    \<and> length (objs st) = Suc (length lines)
    \<and> children (objs st ! 0) = [1 ..< length (objs st)]
    \<and> (\<forall>i. 0 < i \<and> i < length (objs st) \<longrightarrow>
          parent (objs st ! i) = Some 0 \<and> children (objs st ! i) = [] \<and> 0 \<le> start (objs st ! i))
    \<and> (\<forall>n \<le> length lines. \<exists>stn. parse_loop initial_state (take n lines) = Inr stn \<and> anchor stn = 0)"
proof -
  from parse_loop_initial [OF assms] obtain ts where
    ts: "map parse_line lines = map Inr ts" and a: "anchor st = 0" and
    o: "objs st = \<lparr>kind = ''root'', parent = None, children = [1 ..< Suc (length ts)], start = 0,
                end' = fold (\<lambda>t m. max m (snd (snd t))) ts 0\<rparr>
               # map (\<lambda>t. \<lparr>kind = fst t, parent = Some 0, children = [],
                                   start = fst (snd t), end' = snd (snd t)\<rparr>) ts"
    by blast
  from ts have len: "length ts = length lines"
    by (metis length_map)
  have nonneg: "0 \<le> fst (snd (ts ! j))" if "j < length ts" for j
  proof -
    from ts that have "parse_line (lines ! j) = Inr (ts ! j)"
      by (metis len nth_map)
    then have "parse_line (lines ! j) = Inr (fst (ts ! j), fst (snd (ts ! j)), snd (snd (ts ! j)))"
      by simp
    from parse_line_nonneg [OF this] show ?thesis by simp
  qed
  have elems: "parent (objs st ! i) = Some 0 \<and> children (objs st ! i) = [] \<and> 0 \<le> start (objs st ! i)"
    if "0 < i" "i < length (objs st)" for i
  proof -
    from that obtain j where j: "i = Suc j" "j < length ts"
      by (cases i) (auto simp: o)
    with nonneg [of j] show ?thesis by (simp add: o)
  qed
  have prefixes: "\<exists>stn. parse_loop initial_state (take n lines) = Inr stn \<and> anchor stn = 0"
    if "n \<le> length lines" for n
  proof -
    have "parse_loop initial_state (take n lines @ drop n lines) = Inr st"
      using assms by simp
    then obtain stn where stn: "parse_loop initial_state (take n lines) = Inr stn"
      unfolding parse_loop_append by (auto split: sum.splits)
    from parse_loop_initial [OF stn] have "anchor stn = 0" by blast
    with stn show ?thesis by blast
  qed
  have l: "length (objs st) = Suc (length lines)" by (simp add: o len)
  have c: "children (objs st ! 0) = [1 ..< length (objs st)]" by (simp add: o)
  from a l c elems prefixes show ?thesis by blast
qed

theorem parse_attaches_everything_to_root_witness:
  "\<exists>st. parse_loop initial_state [''class - [0-100]'', ''function - [10-20]''] = Inr st
     \<and> anchor st = 0 \<and> length (objs st) = 3 \<and> children (objs st ! 0) = [1, 2]
     \<and> children (objs st ! 1) = []"
proof -
  define st where "st =
     \<lparr>objs = [\<lparr>kind = ''root'', parent = None, children = [1, 2], start = 0, end' = 100\<rparr>,
        \<lparr>kind = ''class'', parent = Some 0, children = [], start = 0, end' = 100\<rparr>,
        \<lparr>kind = ''function'', parent = Some 0, children = [], start = 10, end' = 20\<rparr>],
        anchor = 0\<rparr>"
  have h: "parse_loop initial_state [''class - [0-100]'', ''function - [10-20]''] = Inr st"
    by (simp add: parse_eval st_def)
  from parse_attaches_everything_to_root [OF h]
  have "anchor st = 0" and "length (objs st) = 3" and "children (objs st ! 1) = []"
    by simp_all
  moreover have "children (objs st ! 0) = [1, 2]" by (simp add: st_def)
  ultimately show ?thesis using h by blast
qed

text \<open>
  C4. For every accepted, non-empty list of lines, the elements of the store after the
  root are the parsed lines in order, and the end of the root is the greatest end
  among them. (The end of the root starts at 0; no parsed end is negative.)
\<close>

theorem root_end_is_max_end:
  assumes "parse_structure lines = Inr h" and "lines \<noteq> []"
  shows "map (\<lambda>x. Inr (kind x, start x, end' x)) (tl h) = map parse_line lines
    \<and> end' (h ! 0) = Max (end' ` set (tl h))"
proof -
  from parse_structure_store [OF assms(1)] obtain ts where
    ts: "map parse_line lines = map Inr ts" and
    h: "h = \<lparr>kind = ''root'', parent = None, children = [1 ..< Suc (length ts)], start = 0,
                end' = fold (\<lambda>t m. max m (snd (snd t))) ts 0\<rparr>
               # map (\<lambda>t. \<lparr>kind = fst t, parent = Some 0, children = [],
                                   start = fst (snd t), end' = snd (snd t)\<rparr>) ts"
    by blast
  let ?E = "(\<lambda>t. snd (snd t)) ` set ts"
  from ts assms(2) have ne: "ts \<noteq> []" by auto
  have ends: "end' ` set (tl h) = ?E"
    by (simp add: h image_image)
  have "\<forall>x \<in> ?E. 0 \<le> x" using parsed_nonneg [OF ts] by auto
  moreover from ne have "?E \<noteq> {}" "finite ?E" by simp_all
  ultimately have "0 \<le> Max ?E"
    by (meson Max_in)
  then have "Max (insert 0 ?E) = Max ?E"
    using \<open>?E \<noteq> {}\<close> \<open>finite ?E\<close> by (simp add: max_def)
  then have e: "end' (h ! 0) = Max (end' ` set (tl h))"
    by (simp add: ends) (simp add: h fold_max_Max)
  have "map (\<lambda>x. Inr (kind x, start x, end' x)) (tl h) = map Inr ts"
    by (simp add: h comp_def)
  with ts e show ?thesis by simp
qed

theorem root_end_is_max_end_witness:
  "\<exists>h. parse_structure [''class - [0-100]'', ''function - [110-120]'', ''field - [5-7]''] = Inr h
     \<and> end' (h ! 0) = Max (end' ` set (tl h)) \<and> end' (h ! 0) = 120"
proof -
  define h where "h =
     [\<lparr>kind = ''root'', parent = None, children = [1, 2, 3], start = 0, end' = 120\<rparr>,
      \<lparr>kind = ''class'', parent = Some 0, children = [], start = 0, end' = 100\<rparr>,
      \<lparr>kind = ''function'', parent = Some 0, children = [], start = 110, end' = 120\<rparr>,
      \<lparr>kind = ''field'', parent = Some 0, children = [], start = 5, end' = 7\<rparr>]"
  have p: "parse_structure [''class - [0-100]'', ''function - [110-120]'', ''field - [5-7]'']
      = Inr h"
    by (simp add: parse_eval h_def)
  from root_end_is_max_end [OF p] have "end' (h ! 0) = Max (end' ` set (tl h))" by simp
  moreover have "end' (h ! 0) = 120" by (simp add: h_def)
  ultimately show ?thesis using p by blast
qed

text \<open>
  C5, as stated, fails: every line that violates the output grammar is said to make the
  builder fail. The line \<^verbatim>\<open>class - 0-100\<close> has no brackets, and the builder accepts it.
\<close>

theorem grammar_violation_counterexample:
  "\<not> spec_grammar ''class - 0-100''
   \<and> parse_structure [''class - 0-100''] =
       Inr [\<lparr>kind = ''root'', parent = None, children = [1], start = 0, end' = 100\<rparr>,
            \<lparr>kind = ''class'', parent = Some 0, children = [], start = 0, end' = 100\<rparr>]"
  by (simp add: parse_eval spec_grammar_def eat_def ident_char_def)

text \<open>
  C5, amended. The builder checks no grammar; it fails where indexing or \<^verbatim>\<open>int\<close>
  raises. If any line of the input cannot be parsed, in particular any line with fewer
  than two \<^verbatim>\<open>-\<close> such as \<^verbatim>\<open>class [0-100]\<close>, the call fails with \<^verbatim>\<open>IndexError\<close> or
  \<^verbatim>\<open>ValueError\<close> and returns no tree, whatever the other lines are.
\<close>

theorem malformed_line_is_fatal:
  assumes "l \<in> set lines"
    and "length (filter (\<lambda>c. c = CHR ''-'') l) < 2 \<or> (\<exists>e. parse_line l = Inl e)"
  shows "parse_structure lines = Inl IndexError \<or> parse_structure lines = Inl ValueError"
proof -
  from assms(2) parse_line_few_separators [of l] obtain e where "parse_line l = Inl e"
    by blast
  from parse_loop_error [OF assms(1) this, of initial_state] show ?thesis
    by (auto simp: parse_structure_def)
qed

theorem malformed_line_is_fatal_witness:
  "length (filter (\<lambda>c. c = CHR ''-'') ''class [0-100]'') < 2
   \<and> \<not> spec_grammar ''class [0-100]''
   \<and> parse_structure [''class - [0-100]'', ''class [0-100]'', ''function - [10-20]'']
       = Inl IndexError"
proof -
  have c: "length (filter (\<lambda>c. c = CHR ''-'') ''class [0-100]'') < 2" by simp
  have "''class [0-100]'' \<in> set [''class - [0-100]'', ''class [0-100]'', ''function - [10-20]'']"
    by simp
  from malformed_line_is_fatal [OF this disjI1 [OF c]]
  have "parse_structure [''class - [0-100]'', ''class [0-100]'', ''function - [10-20]'']
       = Inl IndexError \<or>
     parse_structure [''class - [0-100]'', ''class [0-100]'', ''function - [10-20]'']
       = Inl ValueError" .
  moreover have "parse_structure [''class - [0-100]'', ''class [0-100]'', ''function - [10-20]'']
       \<noteq> Inl ValueError"
    by (simp add: parse_eval)
  moreover have "\<not> spec_grammar ''class [0-100]''"
    by (simp add: spec_grammar_def strip_def isspace_def eat_def ident_char_def)
  ultimately show ?thesis using c by blast
qed

text \<open>
  C8, as stated, fails: every element built is said to satisfy \<open>start \<le> end\<close>. The line
  \<^verbatim>\<open>class - [10-5]\<close> follows the grammar and gives an element with start 10 and end 5.
\<close>

theorem start_le_end_counterexample:
  "parse_structure [''class - [10-5]''] =
     Inr [\<lparr>kind = ''root'', parent = None, children = [1], start = 0, end' = 5\<rparr>,
          \<lparr>kind = ''class'', parent = Some 0, children = [], start = 10, end' = 5\<rparr>]
   \<and> spec_grammar ''class - [10-5]''
   \<and> \<not> start \<lparr>kind = ''class'', parent = Some 0, children = [], start = 10, end' = 5\<rparr>
         \<le> end' \<lparr>kind = ''class'', parent = Some 0, children = [], start = 10, end' = 5\<rparr>"
  by (simp add: parse_eval spec_grammar_def eat_def ident_char_def)

text \<open>
  C8, amended. The root has start 0 and an end that is at least 0. Every other element
  carries the start and the end of its line, both at least 0, as they are written: the
  builder does not compare them, so \<open>start \<le> end\<close> holds for an element exactly when
  it holds on its line.
\<close>

theorem offsets_are_those_of_the_lines:
  assumes "parse_structure lines = Inr h"
  shows "start (h ! 0) = 0 \<and> start (h ! 0) \<le> end' (h ! 0) \<and> length h = Suc (length lines)
    \<and> (\<forall>i < length lines.
         parse_line (lines ! i) = Inr (kind (h ! Suc i), start (h ! Suc i), end' (h ! Suc i))
         \<and> 0 \<le> start (h ! Suc i) \<and> 0 \<le> end' (h ! Suc i))"
proof -
  from parse_structure_store [OF assms] obtain ts where
    ts: "map parse_line lines = map Inr ts" and
    h: "h = \<lparr>kind = ''root'', parent = None, children = [1 ..< Suc (length ts)], start = 0,
                end' = fold (\<lambda>t m. max m (snd (snd t))) ts 0\<rparr>
               # map (\<lambda>t. \<lparr>kind = fst t, parent = Some 0, children = [],
                                   start = fst (snd t), end' = snd (snd t)\<rparr>) ts"
    by blast
  from ts have len: "length ts = length lines" by (metis length_map)
  have r: "start (h ! 0) = 0" by (simp add: h)
  have "0 \<le> Max (insert 0 ((\<lambda>t. snd (snd t)) ` set ts))" by simp
  then have re: "start (h ! 0) \<le> end' (h ! 0)" by (simp add: h fold_max_Max)
  have l: "length h = Suc (length lines)" by (simp add: h len)
  have el: "parse_line (lines ! i) = Inr (kind (h ! Suc i), start (h ! Suc i), end' (h ! Suc i))
         \<and> 0 \<le> start (h ! Suc i) \<and> 0 \<le> end' (h ! Suc i)" if "i < length lines" for i
  proof -
    from that len have i: "i < length ts" by simp
    with ts that have "parse_line (lines ! i) = Inr (ts ! i)" by (metis nth_map)
    moreover from i have "ts ! i \<in> set ts" by simp
    from parsed_nonneg [OF ts this] have "0 \<le> fst (snd (ts ! i)) \<and> 0 \<le> snd (snd (ts ! i))" .
    ultimately show ?thesis using i by (simp add: h)
  qed
  from r re l el show ?thesis by blast
qed

theorem offsets_are_those_of_the_lines_witness:
  "\<exists>h. parse_structure [''class - [0-100]'', ''field - [7-5]''] = Inr h
     \<and> start (h ! 0) \<le> end' (h ! 0)
     \<and> parse_line ''field - [7-5]'' = Inr (kind (h ! 2), start (h ! 2), end' (h ! 2))
     \<and> start (h ! 2) = 7 \<and> end' (h ! 2) = 5"
proof -
  define h where "h =
     [\<lparr>kind = ''root'', parent = None, children = [1, 2], start = 0, end' = 100\<rparr>,
      \<lparr>kind = ''class'', parent = Some 0, children = [], start = 0, end' = 100\<rparr>,
      \<lparr>kind = ''field'', parent = Some 0, children = [], start = 7, end' = 5\<rparr>]"
  have p: "parse_structure [''class - [0-100]'', ''field - [7-5]''] = Inr h"
    by (simp add: parse_eval h_def)
  from offsets_are_those_of_the_lines [OF p]
  have r: "start (h ! 0) \<le> end' (h ! 0)"
    and el: "\<forall>i < length [''class - [0-100]'', ''field - [7-5]''].
         parse_line ([''class - [0-100]'', ''field - [7-5]''] ! i)
           = Inr (kind (h ! Suc i), start (h ! Suc i), end' (h ! Suc i))
         \<and> 0 \<le> start (h ! Suc i) \<and> 0 \<le> end' (h ! Suc i)"
    by blast+
  from spec [OF el, where x = 1] r have "start (h ! 0) \<le> end' (h ! 0)"
    and "parse_line ''field - [7-5]'' = Inr (kind (h ! 2), start (h ! 2), end' (h ! 2))"
    by (simp_all add: numeral_2_eq_2)
  moreover have "start (h ! 2) = 7 \<and> end' (h ! 2) = 5" by (simp add: h_def)
  ultimately show ?thesis using p by blast
qed

text \<open>
  C9. In a store returned by the builder, the parent reference of an element is said
  not always to name the element whose children hold it: an element that falls outside
  the range of a class anchor goes to the children of the root while its parent is
  that anchor. On the two lines \<^verbatim>\<open>class - [0-100]\<close>, \<^verbatim>\<open>class - [110-120]\<close> the second
  class lies outside the range of the first. The code gives the store below: the
  anchor was the root when the second class was created, so its parent is the root,
  and the children of the root hold it.
\<close>

theorem two_classes_store:
  "parse_structure [''class - [0-100]'', ''class - [110-120]''] =
   Inr [\<lparr>kind = ''root'', parent = None, children = [1, 2], start = 0, end' = 120\<rparr>,
        \<lparr>kind = ''class'', parent = Some 0, children = [], start = 0, end' = 100\<rparr>,
        \<lparr>kind = ''class'', parent = Some 0, children = [], start = 110, end' = 120\<rparr>]"
  by (simp add: parse_eval)

text \<open>
  The same holds for every input: in every returned store, every element but the root
  has a parent reference, and the children of the element it names hold it.
\<close>

lemma parent_always_names_container:
  "\<not> (\<exists>lines h i. parse_structure lines = Inr h \<and> 0 < i \<and> i < length h
        \<and> \<not> (\<exists>p. parent (h ! i) = Some p \<and> p < length h \<and> i \<in> set (children (h ! p))))"
proof
  assume "\<exists>lines h i. parse_structure lines = Inr h \<and> 0 < i \<and> i < length h
        \<and> \<not> (\<exists>p. parent (h ! i) = Some p \<and> p < length h \<and> i \<in> set (children (h ! p)))"
  then obtain lines h i where p: "parse_structure lines = Inr h" and i: "0 < i" "i < length h"
    and no: "\<not> (\<exists>p. parent (h ! i) = Some p \<and> p < length h \<and> i \<in> set (children (h ! p)))"
    by blast
  from parse_structure_store [OF p] obtain ts where
    h: "h = \<lparr>kind = ''root'', parent = None, children = [1 ..< Suc (length ts)], start = 0,
                end' = fold (\<lambda>t m. max m (snd (snd t))) ts 0\<rparr>
               # map (\<lambda>t. \<lparr>kind = fst t, parent = Some 0, children = [],
                                   start = fst (snd t), end' = snd (snd t)\<rparr>) ts"
    by blast
  from i obtain j where j: "i = Suc j" "j < length ts" by (cases i) (auto simp: h)
  then have "parent (h ! i) = Some 0" by (simp add: h)
  moreover from i have "0 < length h" by linarith
  moreover have "i \<in> set (children (h ! 0))" using j by (auto simp: h)
  ultimately show False using no by blast
qed

text \<open>
  One step of the loop body, from any state: the parent reference of the new element
  is the anchor of that step. If the anchor were not the root and the new element lay
  outside its range, the element would be appended to the children of the root and the
  children of the anchor would stay as they are; inside the range, it is appended to
  the children of the anchor. The builder never reaches a state whose anchor is not the
  root, so only the example state below shows this branch.
\<close>

lemma attach_parent_is_anchor:
  assumes "anchor st < length (objs st)"
  shows "parent (objs (attach st k s e) ! length (objs st)) = Some (anchor st)
    \<and> (anchor st \<noteq> 0 \<and> \<not> in_range (objs st ! anchor st) s e \<longrightarrow>
         children (objs (attach st k s e) ! 0) = children (objs st ! 0) @ [length (objs st)]
         \<and> children (objs (attach st k s e) ! anchor st) = children (objs st ! anchor st))
    \<and> (anchor st \<noteq> 0 \<and> in_range (objs st ! anchor st) s e \<longrightarrow>
         children (objs (attach st k s e) ! anchor st)
           = children (objs st ! anchor st) @ [length (objs st)])"
  using assms
  by (auto simp: attach_def Let_def new_LangElement_def nth_append in_range_def)

lemma attach_from_class_anchor_example:
  "parent (objs (attach
       \<lparr>objs = [\<lparr>kind = ''root'', parent = None, children = [1], start = 0, end' = 50\<rparr>,
                \<lparr>kind = ''class'', parent = Some 0, children = [], start = 0, end' = 50\<rparr>],
        anchor = 1\<rparr> ''class'' 60 70) ! 2) = Some 1
   \<and> children (objs (attach
       \<lparr>objs = [\<lparr>kind = ''root'', parent = None, children = [1], start = 0, end' = 50\<rparr>,
                \<lparr>kind = ''class'', parent = Some 0, children = [], start = 0, end' = 50\<rparr>],
        anchor = 1\<rparr> ''class'' 60 70) ! 0) = [1, 2]
   \<and> children (objs (attach
       \<lparr>objs = [\<lparr>kind = ''root'', parent = None, children = [1], start = 0, end' = 50\<rparr>,
                \<lparr>kind = ''class'', parent = Some 0, children = [], start = 0, end' = 50\<rparr>],
        anchor = 1\<rparr> ''class'' 60 70) ! 1) = []"
proof -
  define st where "st =
       \<lparr>objs = [\<lparr>kind = ''root'', parent = None, children = [1], start = 0, end' = 50\<rparr>,
                \<lparr>kind = ''class'', parent = Some 0, children = [], start = 0, end' = 50\<rparr>],
        anchor = 1\<rparr>"
  have a: "anchor st < length (objs st)" by (simp add: st_def)
  have n: "anchor st \<noteq> 0 \<and> \<not> in_range (objs st ! anchor st) 60 70"
    by (simp add: st_def in_range_def)
  have l: "length (objs st) = 2" "anchor st = 1" by (simp_all add: st_def)
  have c: "children (objs st ! 0) = [1]" "children (objs st ! 1) = []"
    by (simp_all add: st_def)
  from attach_parent_is_anchor [OF a, of "''class''" 60 70] n
  have "parent (objs (attach st ''class'' 60 70) ! length (objs st)) = Some (anchor st)"
    and "children (objs (attach st ''class'' 60 70) ! 0)
           = children (objs st ! 0) @ [length (objs st)]"
    and "children (objs (attach st ''class'' 60 70) ! anchor st) = children (objs st ! anchor st)"
    by blast+
  then show ?thesis unfolding l c unfolding st_def by simp
qed

section \<open>Claim about the weight scorer\<close>

lemma classes_size:
  "length (classes h self) = (if kind (h ! self) = ''class'' then 1 else 0)
     + length (filter (\<lambda>a. kind (h ! a) = ''class'') (children (h ! self)))"
  by (simp add: classes_def filter_map comp_def)

text \<open>
  C3. For every element and every model, the weight is the sum of four terms, each a
  base weight times a multiplier that is 1 unless a bound is crossed: the length term
  is a step on the end of the element; the class term uses the size of the classes
  view and has an upper rule only; the function term and the property/field term have
  an upper and a lower rule. Nothing is clamped: the second part evaluates the scorer
  on a lone root with no children, where the function term is 10 * (0 - 0.1 * 4) and
  the total is negative. (Floats are reals here.)
\<close>

theorem compute_weight_is_unclamped_sum:
  "compute_weight h self wm =
     base_length_weight wm *
       (if real_of_int (end' (h ! self)) > length_upper_limit wm
        then length_upper_limit_multiplier wm
        else if real_of_int (end' (h ! self)) < length_lower_limit wm
        then length_lower_limit_multiplier wm
        else 1)
   + base_class_weight wm *
       (if real (length (classes h self)) > class_upper_limit wm
        then class_upper_limit_multiplier wm - 0.2 * (real (length (classes h self)) - 1)
        else 1)
   + base_function_weight wm *
       (if real (length (functions' h self)) > function_upper_limit wm
        then function_upper_limit_multiplier wm
               - 0.05 * (real (length (functions' h self)) - 20)
        else if real (length (functions' h self)) < function_lower_limit wm
        then function_lower_limit_multiplier wm
               - 0.1 * (4 - real (length (functions' h self)))
        else 1)
   + base_property_or_field_weight wm *
       (if real (length (fields' h self) + length (properties h self))
             > property_field_upper_limit wm
        then property_field_upper_limit_multiplier wm
               - 0.05 * (real (length (fields' h self) + length (properties h self)) - 20)
        else if real (length (fields' h self) + length (properties h self))
                  < property_field_lower_limit wm
        then property_field_lower_limit_multiplier wm
               - 0.05 * (4 - real (length (fields' h self) + length (properties h self)))
        else 1)
   \<and> compute_weight [new_LangElement ''root'' None] 0
        \<lparr>base_length_weight = 1, base_class_weight = 1, base_function_weight = 10,
         base_property_or_field_weight = 1, length_upper_limit = 1000, length_lower_limit = 0,
         length_upper_limit_multiplier = 1, length_lower_limit_multiplier = 1,
         class_upper_limit = 10, class_upper_limit_multiplier = 1,
         function_upper_limit = 20, function_lower_limit = 4,
         function_upper_limit_multiplier = 1, function_lower_limit_multiplier = 0,
         property_field_upper_limit = 20, property_field_lower_limit = 0,
         property_field_upper_limit_multiplier = 1,
         property_field_lower_limit_multiplier = 1\<rparr> < 0"
proof
  show "compute_weight h self wm =
     base_length_weight wm *
       (if real_of_int (end' (h ! self)) > length_upper_limit wm
        then length_upper_limit_multiplier wm
        else if real_of_int (end' (h ! self)) < length_lower_limit wm
        then length_lower_limit_multiplier wm
        else 1)
   + base_class_weight wm *
       (if real (length (classes h self)) > class_upper_limit wm
        then class_upper_limit_multiplier wm - 0.2 * (real (length (classes h self)) - 1)
        else 1)
   + base_function_weight wm *
       (if real (length (functions' h self)) > function_upper_limit wm
        then function_upper_limit_multiplier wm
               - 0.05 * (real (length (functions' h self)) - 20)
        else if real (length (functions' h self)) < function_lower_limit wm
        then function_lower_limit_multiplier wm
               - 0.1 * (4 - real (length (functions' h self)))
        else 1)
   + base_property_or_field_weight wm *
       (if real (length (fields' h self) + length (properties h self))
             > property_field_upper_limit wm
        then property_field_upper_limit_multiplier wm
               - 0.05 * (real (length (fields' h self) + length (properties h self)) - 20)
        else if real (length (fields' h self) + length (properties h self))
                  < property_field_lower_limit wm
        then property_field_lower_limit_multiplier wm
               - 0.05 * (4 - real (length (fields' h self) + length (properties h self)))
        else 1)"
    by (simp add: compute_weight_def Let_def)
next
  show "compute_weight [new_LangElement ''root'' None] 0
        \<lparr>base_length_weight = 1, base_class_weight = 1, base_function_weight = 10,
         base_property_or_field_weight = 1, length_upper_limit = 1000, length_lower_limit = 0,
         length_upper_limit_multiplier = 1, length_lower_limit_multiplier = 1,
         class_upper_limit = 10, class_upper_limit_multiplier = 1,
         function_upper_limit = 20, function_lower_limit = 4,
         function_upper_limit_multiplier = 1, function_lower_limit_multiplier = 0,
         property_field_upper_limit = 20, property_field_lower_limit = 0,
         property_field_upper_limit_multiplier = 1,
         property_field_lower_limit_multiplier = 1\<rparr> < 0"
    by (simp add: compute_weight_def Let_def classes_def functions'_def fields'_def
        properties_def new_LangElement_def)
qed

section \<open>Facts about the registry, the invoker and the loops of the orchestrator\<close>

text \<open>
  The builder raises nothing but \<^verbatim>\<open>IndexError\<close> and \<^verbatim>\<open>ValueError\<close>, so \<^verbatim>\<open>analyze\<close> never
  raises \<^verbatim>\<open>AssertionError\<close>. A lookup that returned an analyzer has left it in the
  dictionary, so the same lookup returns it again.
\<close>

lemma parse_loop_errors:
  "parse_loop st ls = Inl e \<Longrightarrow> e = IndexError \<or> e = ValueError"
proof (induction ls arbitrary: st)
  case Nil
  then show ?case by simp
next
  case (Cons a ls)
  show ?case
  proof (cases "parse_line a")
    case (Inl e')
    with Cons.prems have "e' = e" by (simp add: loop_body_def)
    with parse_line_errors [OF Inl] show ?thesis by simp
  next
    case (Inr t)
    obtain k s n where t: "t = (k, s, n)" by (cases t)
    from Cons.prems Inr t have "parse_loop (attach st k s n) ls = Inl e"
      by (simp add: loop_body_def)
    then show ?thesis by (rule Cons.IH)
  qed
qed

lemma parse_structure_errors:
  assumes "parse_structure ls = Inl e"
  shows "e = IndexError \<or> e = ValueError"
proof (cases "parse_loop initial_state ls")
  case (Inl e')
  with assms have "e' = e" by (simp add: parse_structure_def)
  with Inl show ?thesis using parse_loop_errors by blast
next
  case (Inr st)
  with assms show ?thesis by (simp add: parse_structure_def)
qed

lemma analyze_cases:
  assumes "fst (analyze env sem f w) = Inl e"
  shows "(\<exists>rc. e = CalledProcessError rc) \<or> e = UnicodeDecodeError \<or> e = ModelParseError
     \<or> (\<exists>ls. parse_structure ls = Inl e)"
proof -
  define pr where "pr = run_process env (split_whitespace (tool sem)
      @ [path_join (path_parent (lang_dir sem)) ''declarations.json'', f]) (lang_dir sem)"
  show ?thesis
  proof (cases "returncode pr = 0")
    case False
    with assms have "e = CalledProcessError (returncode pr)"
      by (simp add: analyze_def Let_def pr_def)
    then show ?thesis by blast
  next
    case rc: True
    show ?thesis
    proof (cases "stdout pr")
      case None
      with assms rc have "e = UnicodeDecodeError"
        by (simp add: analyze_def Let_def pr_def)
      then show ?thesis by blast
    next
      case (Some out)
      show ?thesis
      proof (cases "parse_structure (splitlines out)")
        case (Inl e')
        with assms rc Some have "e' = e" by (simp add: analyze_def Let_def pr_def)
        with Inl show ?thesis by blast
      next
        case (Inr h)
        with assms rc Some have "e = ModelParseError"
          by (cases "model_parse env f") (simp_all add: analyze_def Let_def pr_def)
        then show ?thesis by blast
      qed
    qed
  qed
qed

lemma analyze_no_assertion: "fst (analyze env sem f w) \<noteq> Inl AssertionError"
proof
  assume a: "fst (analyze env sem f w) = Inl AssertionError"
  have "\<not> (\<exists>ls. parse_structure ls = Inl AssertionError)"
    using parse_structure_errors by fastforce
  with analyze_cases [OF a] show False by simp
qed

lemma load_semantic_parser_cases:
  "load_semantic_parser env f w =
     (if file_extension f = [] then (Inr None, w)
      else
        (case SEMANTIC_ANALYZERS w (file_extension f) of
           Some sem \<Rightarrow> (Inr (Some sem), w)
         | None \<Rightarrow>
            (if \<not> path_exists env (path_join (LANG_SEMANTICS_PATH env) (file_extension f))
             then (Inr None, w)
             else
               (case read_text env
                  (path_join (path_join (LANG_SEMANTICS_PATH env) (file_extension f)) ''target'') of
                  None \<Rightarrow> (Inl OSError, w)
                | Some exe \<Rightarrow>
                   (Inr (Some \<lparr>lang_dir = path_join (LANG_SEMANTICS_PATH env) (file_extension f),
                                tool = exe\<rparr>),
                    w\<lparr>SEMANTIC_ANALYZERS := (SEMANTIC_ANALYZERS w)(file_extension f \<mapsto>
                         \<lparr>lang_dir = path_join (LANG_SEMANTICS_PATH env) (file_extension f),
                          tool = exe\<rparr>)\<rparr>)))))"
  by (simp add: load_semantic_parser_def Let_def split: option.splits)

lemma load_semantic_parser_cached:
  assumes "load_semantic_parser env f w = (Inr (Some sem), w1)"
  shows "load_semantic_parser env f w1 = (Inr (Some sem), w1)"
proof -
  from assms have ne: "file_extension f \<noteq> []"
    by (auto simp: load_semantic_parser_cases)
  from assms have "SEMANTIC_ANALYZERS w1 (file_extension f) = Some sem"
    unfolding load_semantic_parser_cases
    by (auto split: if_splits option.splits)
  with ne show ?thesis by (simp add: load_semantic_parser_cases)
qed

lemma load_semantic_parser_error:
  "load_semantic_parser env f w = (Inl e, w') \<Longrightarrow> e = OSError"
  unfolding load_semantic_parser_cases
  by (simp split: if_splits option.splits)

lemma compute_semantic_weight_after_check:
  assumes "has_semantic_parser env f w = (Inr True, w1)"
  shows "\<exists>sem. load_semantic_parser env f w = (Inr (Some sem), w1)
           \<and> compute_semantic_weight env f w1 = analyze env sem f w1"
proof -
  from assms obtain sem where l: "load_semantic_parser env f w = (Inr (Some sem), w1)"
    by (auto simp: has_semantic_parser_def split: prod.splits sum.splits)
  from load_semantic_parser_cached [OF l]
  have "compute_semantic_weight env f w1 = analyze env sem f w1"
    by (simp add: compute_semantic_weight_def)
  with l show ?thesis by blast
qed

lemma grouped_loop_no_assertion:
  "fst (grouped_loop env fs ret w) \<noteq> Inl AssertionError"
proof (induction fs arbitrary: ret w)
  case Nil
  then show ?case by simp
next
  case (Cons f fs)
  obtain r w1 where h: "has_semantic_parser env (absolute env f) w = (r, w1)"
    by (cases "has_semantic_parser env (absolute env f) w")
  show ?case
  proof (cases r)
    case (Inl e)
    with h obtain w0 where "load_semantic_parser env (absolute env f) w = (Inl e, w0)"
      by (auto simp: has_semantic_parser_def split: prod.splits sum.splits)
    from load_semantic_parser_error [OF this] Inl h show ?thesis by simp
  next
    case (Inr b)
    show ?thesis
    proof (cases b)
      case False
      with h Inr Cons.IH show ?thesis by simp
    next
      case True
      with h Inr have "has_semantic_parser env (absolute env f) w = (Inr True, w1)" by simp
      from compute_semantic_weight_after_check [OF this] obtain sem where
        c: "compute_semantic_weight env (absolute env f) w1 = analyze env sem (absolute env f) w1"
        by blast
      obtain a w2 where a: "analyze env sem (absolute env f) w1 = (a, w2)"
        by (cases "analyze env sem (absolute env f) w1")
      show ?thesis
      proof (cases a)
        case (Inl e)
        with a analyze_no_assertion [of env sem "absolute env f" w1]
        have "e \<noteq> AssertionError" by auto
        with h Inr True c a Inl show ?thesis by simp
      next
        case (Inr p)
        with h \<open>r = Inr b\<close> True c a Cons.IH show ?thesis by simp
      qed
    qed
  qed
qed

lemma result_loop_no_assertion:
  "fst (result_loop env gs ret w) \<noteq> Inl AssertionError"
proof (induction gs arbitrary: ret w)
  case Nil
  then show ?case by simp
next
  case (Cons g gs)
  obtain r w1 where h: "compute_semantic_weight_grouped env g w = (r, w1)"
    by (cases "compute_semantic_weight_grouped env g w")
  show ?case
  proof (cases r)
    case (Inl e)
    with h grouped_loop_no_assertion [of env "files g" "[]" w]
    have "e \<noteq> AssertionError" by (auto simp: compute_semantic_weight_grouped_def)
    with h Inl show ?thesis by simp
  next
    case (Inr x)
    with h Cons.IH show ?thesis by simp
  qed
qed

text \<open>
  During a batch the dictionary only grows, and growing it changes neither what the
  registry returns for a file nor what the analysis of a file yields: each loop
  appends, for every file in turn, what the file yields in the world the batch started
  in, and stops at the first error.
\<close>

lemma cache_grows_refl: "cache_grows env c c"
  by (simp add: cache_grows_def)

lemma cache_grows_trans:
  assumes "cache_grows env a b" and "cache_grows env b c"
  shows "cache_grows env a c"
  unfolding cache_grows_def
proof
  fix ext
  from assms(1) have 1: "b ext = a ext \<or>
        (a ext = None \<and> path_exists env (path_join (LANG_SEMANTICS_PATH env) ext) \<and>
         (\<exists>exe. read_text env (path_join (path_join (LANG_SEMANTICS_PATH env) ext) ''target'')
                  = Some exe \<and>
                b ext = Some \<lparr>lang_dir = path_join (LANG_SEMANTICS_PATH env) ext, tool = exe\<rparr>))"
    by (simp add: cache_grows_def)
  from assms(2) have 2: "c ext = b ext \<or>
        (b ext = None \<and> path_exists env (path_join (LANG_SEMANTICS_PATH env) ext) \<and>
         (\<exists>exe. read_text env (path_join (path_join (LANG_SEMANTICS_PATH env) ext) ''target'')
                  = Some exe \<and>
                c ext = Some \<lparr>lang_dir = path_join (LANG_SEMANTICS_PATH env) ext, tool = exe\<rparr>))"
    by (simp add: cache_grows_def)
  from 1 2 show "c ext = a ext \<or>
        (a ext = None \<and> path_exists env (path_join (LANG_SEMANTICS_PATH env) ext) \<and>
         (\<exists>exe. read_text env (path_join (path_join (LANG_SEMANTICS_PATH env) ext) ''target'')
                  = Some exe \<and>
                c ext = Some \<lparr>lang_dir = path_join (LANG_SEMANTICS_PATH env) ext, tool = exe\<rparr>))"
    by auto
qed

lemma load_semantic_parser_grows:
  "cache_grows env (SEMANTIC_ANALYZERS w) (SEMANTIC_ANALYZERS (snd (load_semantic_parser env f w)))"
  unfolding load_semantic_parser_cases cache_grows_def
  by (simp split: option.splits)

lemma load_semantic_parser_stable:
  assumes "cache_grows env (SEMANTIC_ANALYZERS w) (SEMANTIC_ANALYZERS w')"
  shows "fst (load_semantic_parser env f w') = fst (load_semantic_parser env f w)"
proof -
  let ?x = "file_extension f"
  from assms have "SEMANTIC_ANALYZERS w' ?x = SEMANTIC_ANALYZERS w ?x \<or>
        (SEMANTIC_ANALYZERS w ?x = None
         \<and> path_exists env (path_join (LANG_SEMANTICS_PATH env) ?x) \<and>
         (\<exists>exe. read_text env (path_join (path_join (LANG_SEMANTICS_PATH env) ?x) ''target'')
                  = Some exe \<and>
                SEMANTIC_ANALYZERS w' ?x
                  = Some \<lparr>lang_dir = path_join (LANG_SEMANTICS_PATH env) ?x, tool = exe\<rparr>))"
    by (simp add: cache_grows_def)
  then show ?thesis
    unfolding load_semantic_parser_cases
    by (auto split: option.splits)
qed

lemma analyze_result_independent:
  "fst (analyze env sem f w) = fst (analyze env sem f w')"
  by (simp add: analyze_def Let_def split: option.splits sum.splits)

lemma analyze_keeps_cache:
  "SEMANTIC_ANALYZERS (snd (analyze env sem f w)) = SEMANTIC_ANALYZERS w"
  by (simp add: analyze_def Let_def split: option.splits sum.splits)

lemma file_outcome_stable:
  assumes "cache_grows env (SEMANTIC_ANALYZERS w) (SEMANTIC_ANALYZERS w')"
  shows "file_outcome env w' f = file_outcome env w f"
  using load_semantic_parser_stable [OF assms, of f]
    analyze_result_independent [of env _ f w' w]
  by (simp add: file_outcome_def split: sum.splits option.splits)

lemma has_semantic_parser_eq:
  "has_semantic_parser env f w =
     (case fst (load_semantic_parser env f w) of Inl e \<Rightarrow> Inl e | Inr r \<Rightarrow> Inr (r \<noteq> None),
      snd (load_semantic_parser env f w))"
  by (simp add: has_semantic_parser_def split: prod.splits sum.splits)

lemma checked_file_outcome:
  assumes "has_semantic_parser env f w = (Inr True, w1)"
  shows "fst (compute_semantic_weight env f w1) = file_outcome env w f"
    and "SEMANTIC_ANALYZERS (snd (compute_semantic_weight env f w1)) = SEMANTIC_ANALYZERS w1"
proof -
  from compute_semantic_weight_after_check [OF assms] obtain sem where
    l: "load_semantic_parser env f w = (Inr (Some sem), w1)" and
    c: "compute_semantic_weight env f w1 = analyze env sem f w1"
    by blast
  from l have "file_outcome env w f = fst (analyze env sem f w)"
    by (simp add: file_outcome_def)
  with c analyze_result_independent [of env sem f w1 w]
  show "fst (compute_semantic_weight env f w1) = file_outcome env w f" by simp
  from c analyze_keeps_cache [of env sem f w1]
  show "SEMANTIC_ANALYZERS (snd (compute_semantic_weight env f w1)) = SEMANTIC_ANALYZERS w1"
    by simp
qed

lemma unchecked_file_outcome:
  "has_semantic_parser env f w = (Inr False, w1) \<Longrightarrow>
     file_outcome env w f = Inr (SemanticWeightModel_default, [new_LangElement ''root'' None])"
  "has_semantic_parser env f w = (Inl e, w1) \<Longrightarrow> file_outcome env w f = Inl e"
  by (auto simp: has_semantic_parser_eq file_outcome_def split: sum.splits option.splits)

lemma has_semantic_parser_grows:
  "has_semantic_parser env f w = (r, w1) \<Longrightarrow>
     cache_grows env (SEMANTIC_ANALYZERS w) (SEMANTIC_ANALYZERS w1)"
  using load_semantic_parser_grows [of env w f] by (auto simp: has_semantic_parser_eq)

lemma grouped_loop_refines:
  assumes "cache_grows env (SEMANTIC_ANALYZERS w0) (SEMANTIC_ANALYZERS w)"
  shows "cache_grows env (SEMANTIC_ANALYZERS w0)
           (SEMANTIC_ANALYZERS (snd (grouped_loop env fs ret w)))
    \<and> (\<forall>res. fst (grouped_loop env fs ret w) = Inr res \<longrightarrow>
          (\<exists>rs. res = ret @ rs
             \<and> list_all2 (\<lambda>f p. file_outcome env w0 (absolute env f) = Inr p) fs rs))
    \<and> (\<forall>e. fst (grouped_loop env fs ret w) = Inl e \<longrightarrow>
          (\<exists>f \<in> set fs. file_outcome env w0 (absolute env f) = Inl e))"
  using assms
proof (induction fs arbitrary: ret w)
  case Nil
  then show ?case by simp
next
  case (Cons f fs)
  let ?f = "absolute env f"
  obtain r w1 where h: "has_semantic_parser env ?f w = (r, w1)"
    by (cases "has_semantic_parser env ?f w")
  have g1: "cache_grows env (SEMANTIC_ANALYZERS w0) (SEMANTIC_ANALYZERS w1)"
    using cache_grows_trans [OF Cons.prems has_semantic_parser_grows [OF h]] .
  have st: "file_outcome env w ?f = file_outcome env w0 ?f"
    using file_outcome_stable [OF Cons.prems] .
  show ?case
  proof (cases r)
    case (Inl e)
    with h unchecked_file_outcome(2) [of env ?f w e w1] st
    have "file_outcome env w0 ?f = Inl e" by simp
    with h Inl g1 show ?thesis by simp
  next
    case (Inr b)
    show ?thesis
    proof (cases b)
      case False
      with h Inr unchecked_file_outcome(1) [of env ?f w w1] st
      have o: "file_outcome env w0 ?f
          = Inr (SemanticWeightModel_default, [new_LangElement ''root'' None])" by simp
      let ?ret = "ret @ [(SemanticWeightModel_default, [new_LangElement ''root'' None])]"
      from h Inr False have eq: "grouped_loop env (f # fs) ret w = grouped_loop env fs ?ret w1"
        by simp
      from Cons.IH [OF g1, of ?ret] o show ?thesis
        unfolding eq by (auto simp: list_all2_Cons1)
    next
      case True
      with h Inr have hp: "has_semantic_parser env ?f w = (Inr True, w1)" by simp
      obtain a w2 where c: "compute_semantic_weight env ?f w1 = (a, w2)"
        by (cases "compute_semantic_weight env ?f w1")
      from checked_file_outcome [OF hp] c st
      have o: "file_outcome env w0 ?f = a"
        and k: "SEMANTIC_ANALYZERS w2 = SEMANTIC_ANALYZERS w1" by simp_all
      from g1 k have g2: "cache_grows env (SEMANTIC_ANALYZERS w0) (SEMANTIC_ANALYZERS w2)"
        by simp
      show ?thesis
      proof (cases a)
        case (Inl e)
        with hp c have "grouped_loop env (f # fs) ret w = (Inl e, w2)" by simp
        with o Inl g2 show ?thesis by simp
      next
        case (Inr p)
        with hp c have eq: "grouped_loop env (f # fs) ret w = grouped_loop env fs (ret @ [p]) w2"
          by simp
        from Cons.IH [OF g2, of "ret @ [p]"] o Inr show ?thesis
          unfolding eq by (auto simp: list_all2_Cons1)
      qed
    qed
  qed
qed

lemma result_loop_refines:
  assumes "cache_grows env (SEMANTIC_ANALYZERS w0) (SEMANTIC_ANALYZERS w)"
  shows "(\<forall>res. fst (result_loop env gs ret w) = Inr res \<longrightarrow>
          (\<exists>rs. res = ret @ rs
             \<and> list_all2 (\<lambda>g r. list_all2
                   (\<lambda>f p. file_outcome env w0 (absolute env f) = Inr p) (files g) r) gs rs))
    \<and> (\<forall>e. fst (result_loop env gs ret w) = Inl e \<longrightarrow>
          (\<exists>g \<in> set gs. \<exists>f \<in> set (files g). file_outcome env w0 (absolute env f) = Inl e))"
  using assms
proof (induction gs arbitrary: ret w)
  case Nil
  then show ?case by simp
next
  case (Cons g gs)
  obtain a w1 where c: "compute_semantic_weight_grouped env g w = (a, w1)"
    by (cases "compute_semantic_weight_grouped env g w")
  then have gl: "grouped_loop env (files g) [] w = (a, w1)"
    by (simp add: compute_semantic_weight_grouped_def)
  from grouped_loop_refines [OF Cons.prems, of "files g" "[]"] gl
  have g1: "cache_grows env (SEMANTIC_ANALYZERS w0) (SEMANTIC_ANALYZERS w1)"
    and ok: "\<forall>res. a = Inr res \<longrightarrow>
       list_all2 (\<lambda>f p. file_outcome env w0 (absolute env f) = Inr p) (files g) res"
    and bad: "\<forall>e. a = Inl e \<longrightarrow>
       (\<exists>f \<in> set (files g). file_outcome env w0 (absolute env f) = Inl e)"
    by simp_all
  show ?case
  proof (cases a)
    case (Inl e)
    with c have "result_loop env (g # gs) ret w = (Inl e, w1)" by simp
    with bad Inl show ?thesis by auto
  next
    case (Inr r)
    with c have eq: "result_loop env (g # gs) ret w = result_loop env gs (ret @ [r]) w1"
      by simp
    from Cons.IH [OF g1, of "ret @ [r]"] ok Inr show ?thesis
      unfolding eq by (auto simp: list_all2_Cons1)
  qed
qed

lemmas batch_eval = compute_semantic_weight_result_def compute_semantic_weight_grouped_def
  has_semantic_parser_def load_semantic_parser_def file_extension_def path_suffix_def
  path_name_def path_parent_def path_join_def absolute_def compute_semantic_weight_def
  analyze_def split_whitespace_def splitlines_def is_linebreak_def
  example_environment_def
  example_world_def

section \<open>Claims about the invoker and the orchestrator\<close>

text \<open>
  C7. When the analyzer process of an invocation exits with a non-zero status \<open>rc\<close>,
  \<^verbatim>\<open>analyze\<close> raises \<^verbatim>\<open>CalledProcessError\<close> with that status, whatever the process
  printed and whatever model the file has; exactly one process was started (no retry);
  and \<^verbatim>\<open>compute_semantic_weight\<close> on that file fails with the same error.
\<close>

theorem nonzero_exit_is_fatal:
  assumes "returncode (run_process env (split_whitespace (tool sem)
      @ [path_join (path_parent (lang_dir sem)) ''declarations.json'', f]) (lang_dir sem)) = rc"
    and "rc \<noteq> 0"
  shows "analyze env sem f w =
      (Inl (CalledProcessError rc),
       w\<lparr>started := started w @ [(split_whitespace (tool sem)
         @ [path_join (path_parent (lang_dir sem)) ''declarations.json'', f], lang_dir sem)]\<rparr>)
    \<and> (\<forall>w0. load_semantic_parser env f w0 = (Inr (Some sem), w) \<longrightarrow>
          fst (compute_semantic_weight env f w0) = Inl (CalledProcessError rc))"
proof -
  from assms have a: "analyze env sem f w =
      (Inl (CalledProcessError rc),
       w\<lparr>started := started w @ [(split_whitespace (tool sem)
         @ [path_join (path_parent (lang_dir sem)) ''declarations.json'', f], lang_dir sem)]\<rparr>)"
    by (simp add: analyze_def Let_def)
  then have "fst (compute_semantic_weight env f w0) = Inl (CalledProcessError rc)"
    if "load_semantic_parser env f w0 = (Inr (Some sem), w)" for w0
    using that by (simp add: compute_semantic_weight_def)
  with a show ?thesis by blast
qed

theorem nonzero_exit_is_fatal_witness:
  "analyze example_environment
      \<lparr>lang_dir = ''/app/lang-semantics/cs'', tool = ''dotnet Analyzer.dll''\<rparr>
      ''/repo/Broken.cs'' example_world =
    (Inl (CalledProcessError 1),
     example_world\<lparr>started :=
       [([''dotnet'', ''Analyzer.dll'', ''/app/lang-semantics/declarations.json'',
          ''/repo/Broken.cs''], ''/app/lang-semantics/cs'')]\<rparr>)"
proof -
  have rc: "returncode (run_process example_environment
      (split_whitespace (tool \<lparr>lang_dir = ''/app/lang-semantics/cs'', tool = ''dotnet Analyzer.dll''\<rparr>)
       @ [path_join (path_parent (lang_dir \<lparr>lang_dir = ''/app/lang-semantics/cs'',
            tool = ''dotnet Analyzer.dll''\<rparr>)) ''declarations.json'', ''/repo/Broken.cs''])
      (lang_dir \<lparr>lang_dir = ''/app/lang-semantics/cs'', tool = ''dotnet Analyzer.dll''\<rparr>)) = 1"
    by (simp add: example_environment_def)
  have nz: "(1::int) \<noteq> 0" by simp
  from nonzero_exit_is_fatal [OF rc nz, where w = example_world]
  show ?thesis
    by (simp add: split_whitespace_def isspace_def path_join_def path_parent_def
        example_world_def)
qed

text \<open>
  C10. \<^verbatim>\<open>compute_semantic_weight\<close> on a file for which the registry returns \<^verbatim>\<open>None\<close>
  fails with \<^verbatim>\<open>AssertionError\<close>. Neither \<^verbatim>\<open>compute_semantic_weight_grouped\<close> nor
  \<^verbatim>\<open>compute_semantic_weight_result\<close> ever fails with it, in any environment and from
  any state of the dictionary: they call \<^verbatim>\<open>compute_semantic_weight\<close> only after
  \<^verbatim>\<open>has_semantic_parser\<close> returned true, which leaves the analyzer in the dictionary.
\<close>

theorem assertion_unreachable_from_batch:
  "(load_semantic_parser env f w = (Inr None, w') \<longrightarrow>
      compute_semantic_weight env f w = (Inl AssertionError, w'))
   \<and> fst (compute_semantic_weight_grouped env file_group w) \<noteq> Inl AssertionError
   \<and> fst (compute_semantic_weight_result env groups w) \<noteq> Inl AssertionError"
  using grouped_loop_no_assertion [of env "files file_group" "[]" w]
    result_loop_no_assertion [of env groups "[]" w]
  by (simp add: compute_semantic_weight_def compute_semantic_weight_grouped_def
      compute_semantic_weight_result_def)

theorem assertion_unreachable_from_batch_witness:
  "compute_semantic_weight example_environment ''/repo/LICENCE'' example_world
     = (Inl AssertionError, example_world)
   \<and> fst (compute_semantic_weight_grouped example_environment \<lparr>files = [''/repo/LICENCE'']\<rparr>
          example_world) \<noteq> Inl AssertionError"
proof -
  have l: "load_semantic_parser example_environment ''/repo/LICENCE'' example_world
      = (Inr None, example_world)"
    by (simp add: load_semantic_parser_def file_extension_def path_suffix_def path_name_def)
  from assertion_unreachable_from_batch [where env = example_environment
      and f = "''/repo/LICENCE''" and w = example_world and w' = example_world
      and file_group = "\<lparr>files = [''/repo/LICENCE'']\<rparr>" and groups = "[]"] l
  show ?thesis by blast
qed

text \<open>
  C6. When the batch returns, its result mirrors the input: one list per group, in
  order, and in it one pair per file, in order; the pair of a file for which the
  registry returns \<^verbatim>\<open>None\<close> is the fallback (the default model and a root without
  children), and the pair of any other file is the one \<^verbatim>\<open>analyze\<close> returns for it. When
  the batch raises, the error is that of a file whose lookup or whose analysis raises:
  a file without an analyzer is never skipped and never makes the batch raise.
\<close>

theorem batch_mirrors_input:
  "(case fst (compute_semantic_weight_result env groups w) of
      Inr res \<Rightarrow>
        list_all2 (\<lambda>g r. list_all2 (\<lambda>f p.
            (fst (load_semantic_parser env (absolute env f) w) = Inr None
               \<and> p = (SemanticWeightModel_default, [new_LangElement ''root'' None]))
            \<or> (\<exists>sem. fst (load_semantic_parser env (absolute env f) w) = Inr (Some sem)
                  \<and> fst (analyze env sem (absolute env f) w) = Inr p))
          (files g) r) groups res
    | Inl e \<Rightarrow>
        \<exists>g \<in> set groups. \<exists>f \<in> set (files g).
          fst (load_semantic_parser env (absolute env f) w) = Inl e
          \<or> (\<exists>sem. fst (load_semantic_parser env (absolute env f) w) = Inr (Some sem)
                \<and> fst (analyze env sem (absolute env f) w) = Inl e))"
proof -
  have ok: "file_outcome env w f = Inr p \<Longrightarrow>
      (fst (load_semantic_parser env f w) = Inr None
               \<and> p = (SemanticWeightModel_default, [new_LangElement ''root'' None]))
      \<or> (\<exists>sem. fst (load_semantic_parser env f w) = Inr (Some sem)
                  \<and> fst (analyze env sem f w) = Inr p)" for f p
    by (auto simp: file_outcome_def split: sum.splits option.splits)
  have bad: "file_outcome env w f = Inl e \<Longrightarrow>
      fst (load_semantic_parser env f w) = Inl e
      \<or> (\<exists>sem. fst (load_semantic_parser env f w) = Inr (Some sem)
            \<and> fst (analyze env sem f w) = Inl e)" for f e
    by (auto simp: file_outcome_def split: sum.splits option.splits)
  from result_loop_refines [OF cache_grows_refl, where env = env and w = w and gs = groups
      and ret = "[]"]
  have r1: "\<forall>res. fst (compute_semantic_weight_result env groups w) = Inr res \<longrightarrow>
      list_all2 (\<lambda>g r. list_all2
                   (\<lambda>f p. file_outcome env w (absolute env f) = Inr p) (files g) r) groups res"
    and r2: "\<forall>e. fst (compute_semantic_weight_result env groups w) = Inl e \<longrightarrow>
          (\<exists>g \<in> set groups. \<exists>f \<in> set (files g). file_outcome env w (absolute env f) = Inl e)"
    by (simp_all add: compute_semantic_weight_result_def)
  show ?thesis
  proof (cases "fst (compute_semantic_weight_result env groups w)")
    case (Inl e)
    with r2 obtain g f where "g \<in> set groups" "f \<in> set (files g)"
      "file_outcome env w (absolute env f) = Inl e" by blast
    with bad [of "absolute env f" e] Inl show ?thesis by auto
  next
    case (Inr res)
    with r1 have "list_all2 (\<lambda>g r. list_all2
         (\<lambda>f p. file_outcome env w (absolute env f) = Inr p) (files g) r) groups res" by blast
    then have "list_all2 (\<lambda>g r. list_all2 (\<lambda>f p.
            (fst (load_semantic_parser env (absolute env f) w) = Inr None
               \<and> p = (SemanticWeightModel_default, [new_LangElement ''root'' None]))
            \<or> (\<exists>sem. fst (load_semantic_parser env (absolute env f) w) = Inr (Some sem)
                  \<and> fst (analyze env sem (absolute env f) w) = Inr p))
          (files g) r) groups res"
      by (rule list_all2_mono) (erule list_all2_mono, rule ok)
    with Inr show ?thesis by simp
  qed
qed

theorem batch_mirrors_input_witness:
  "fst (compute_semantic_weight_result example_environment
         [\<lparr>files = [''A.cs'', ''LICENCE'']\<rparr>, \<lparr>files = [''/repo/image.bin'']\<rparr>] example_world) =
     Inr [[(SemanticWeightModel_default,
            [\<lparr>kind = ''root'', parent = None, children = [1, 2], start = 0, end' = 100\<rparr>,
             \<lparr>kind = ''class'', parent = Some 0, children = [], start = 0, end' = 100\<rparr>,
             \<lparr>kind = ''function'', parent = Some 0, children = [], start = 10, end' = 20\<rparr>]),
           (SemanticWeightModel_default, [new_LangElement ''root'' None])],
          [(SemanticWeightModel_default, [new_LangElement ''root'' None])]]
   \<and> list_all2 (\<lambda>g r. list_all2 (\<lambda>f p.
            (fst (load_semantic_parser example_environment (absolute example_environment f)
                    example_world) = Inr None
               \<and> p = (SemanticWeightModel_default, [new_LangElement ''root'' None]))
            \<or> (\<exists>sem. fst (load_semantic_parser example_environment
                          (absolute example_environment f) example_world) = Inr (Some sem)
                  \<and> fst (analyze example_environment sem (absolute example_environment f)
                          example_world) = Inr p))
          (files g) r)
        [\<lparr>files = [''A.cs'', ''LICENCE'']\<rparr>, \<lparr>files = [''/repo/image.bin'']\<rparr>]
        [[(SemanticWeightModel_default,
            [\<lparr>kind = ''root'', parent = None, children = [1, 2], start = 0, end' = 100\<rparr>,
             \<lparr>kind = ''class'', parent = Some 0, children = [], start = 0, end' = 100\<rparr>,
             \<lparr>kind = ''function'', parent = Some 0, children = [], start = 10, end' = 20\<rparr>]),
           (SemanticWeightModel_default, [new_LangElement ''root'' None])],
          [(SemanticWeightModel_default, [new_LangElement ''root'' None])]]"
proof -
  have h: "fst (compute_semantic_weight_result example_environment
         [\<lparr>files = [''A.cs'', ''LICENCE'']\<rparr>, \<lparr>files = [''/repo/image.bin'']\<rparr>] example_world) =
     Inr [[(SemanticWeightModel_default,
            [\<lparr>kind = ''root'', parent = None, children = [1, 2], start = 0, end' = 100\<rparr>,
             \<lparr>kind = ''class'', parent = Some 0, children = [], start = 0, end' = 100\<rparr>,
             \<lparr>kind = ''function'', parent = Some 0, children = [], start = 10, end' = 20\<rparr>]),
           (SemanticWeightModel_default, [new_LangElement ''root'' None])],
          [(SemanticWeightModel_default, [new_LangElement ''root'' None])]]"
    by (simp add: batch_eval parse_eval)
  from batch_mirrors_input [where env = example_environment and w = example_world
      and groups = "[\<lparr>files = [''A.cs'', ''LICENCE'']\<rparr>, \<lparr>files = [''/repo/image.bin'']\<rparr>]"]
  show ?thesis unfolding h by (simp only: sum.case simp_thms)
qed

end
